theory Spec2Isabelle
  imports Complex_Main "HOL-Library.Sublist" "HOL-Library.Multiset"
begin

section \<open>Errors and values\<close>

text \<open>
  The notebooks are straight-line Python over pandas, numpy and scikit-learn. An exception
  raised by any call ends the cell; it is a value \<open>Inl e\<close> of the result type. Library
  failures (an estimator refusing its input) are \<open>LibraryError\<close> with the library's
  message.
\<close>

datatype error = KeyError | AttributeError | IndexError | ValueError | LibraryError string

text \<open>
  Numbers are idealised: a float64 that holds a number is a \<open>real\<close>, arithmetic on it
  is exact. The one not-a-number the notebook code can itself produce (the mean of an
  empty array) is \<open>None\<close>.
\<close>

type_synonym npfloat = "real option"

text \<open>
  A cell of the table read from \<open>prostate_data\<close>, and so an entry of the feature arrays
  made from it: \<open>Num x\<close> is a cell that holds the number \<open>x\<close> (or its text, in a column
  that also holds other text), \<open>Str s\<close> a cell whose text is not a number.
\<close>

datatype cell = Num real | Str string

section \<open>Enumeration of the feature subsets\<close>

text \<open>
  \<^verbatim>\<open>itertools.combinations(iterable, r)\<close>: the r-length subsequences of the input, in
  lexicographic order of their positions; one empty tuple for \<open>r = 0\<close>, nothing when
  \<open>r\<close> exceeds the length.
\<close>

fun combinations :: "'a list \<Rightarrow> nat \<Rightarrow> 'a list list" where
  "combinations xs 0 = [[]]"
| "combinations [] (Suc k) = []"
| "combinations (x # xs) (Suc k) =
     map ((#) x) (combinations xs k) @ combinations xs (Suc k)"

text \<open>\<^verbatim>\<open>range(a, b)\<close>.\<close>

definition range :: "nat \<Rightarrow> nat \<Rightarrow> nat list" where
  "range a b = [a..<b]"

text \<open>
  The subsets the nested loop visits, in the order it visits them:
  \<^verbatim>\<open>
  for k in range(1, X_train.shape[1] + 1):
      for subset in itertools.combinations(range(X_train.shape[1]), k):
          subset = list(subset)
  \<close>
\<close>

fun subsets_of_sizes :: "nat \<Rightarrow> nat list \<Rightarrow> nat list list" where
  "subsets_of_sizes p [] = []"
| "subsets_of_sizes p (k # ks) = combinations (range 0 p) k @ subsets_of_sizes p ks"

definition enumerated_subsets :: "nat \<Rightarrow> nat list list" where
  "enumerated_subsets p = subsets_of_sizes p (range 1 (p + 1))"

section \<open>Arrays\<close>

text \<open>
  A two-dimensional array keeps its column count apart from its rows, as
  \<^verbatim>\<open>X.shape[1]\<close> does when there are no rows.
\<close>

record 'a matrix =
  n_cols :: nat
  m_rows :: "'a list list"

text \<open>
  \<^verbatim>\<open>X[:, subset]\<close>: the columns at the listed positions, in the listed order; an index
  beyond the last column raises IndexError.
\<close>

definition take_columns :: "'a matrix \<Rightarrow> nat list \<Rightarrow> error + 'a matrix" where
  "take_columns X idx =
     (if list_all (\<lambda>j. j < n_cols X) idx
      then Inr \<lparr>n_cols = length idx, m_rows = map (\<lambda>r. map ((!) r) idx) (m_rows X)\<rparr>
      else Inl IndexError)"

text \<open>A prediction is a one-dimensional array or a two-dimensional one.\<close>

datatype ndarray = Arr1 "real list" | Arr2 "real matrix"

text \<open>
  numpy broadcasting of two axis lengths: equal lengths agree, a length of one stretches to
  the other, anything else is a ValueError.
\<close>

definition broadcast_len :: "nat \<Rightarrow> nat \<Rightarrow> nat option" where
  "broadcast_len n m =
     (if n = m then Some n else if n = 1 then Some m else if m = 1 then Some n else None)"

definition broadcast_get :: "real list \<Rightarrow> nat \<Rightarrow> real" where
  "broadcast_get xs j = (if length xs = 1 then xs ! 0 else xs ! j)"

text \<open>
  \<^verbatim>\<open>y_test - prediction\<close> with a one-dimensional \<open>y_test\<close>. Against a two-dimensional
  prediction of shape \<open>(r, c)\<close>, \<open>y_test\<close> of shape \<open>(n,)\<close> is read as \<open>(1, n)\<close>: the
  result has \<open>r\<close> rows, and its entry \<open>(i, j)\<close> is \<open>y_test[j] - prediction[i][j]\<close>,
  each side repeated along an axis where its length is one.
\<close>

fun np_subtract :: "real list \<Rightarrow> ndarray \<Rightarrow> error + ndarray" where
  "np_subtract y (Arr1 p) =
     (case broadcast_len (length y) (length p) of
        None \<Rightarrow> Inl ValueError
      | Some n \<Rightarrow> Inr (Arr1 (map (\<lambda>j. broadcast_get y j - broadcast_get p j) [0..<n])))"
| "np_subtract y (Arr2 P) =
     (case broadcast_len (length y) (n_cols P) of
        None \<Rightarrow> Inl ValueError
      | Some n \<Rightarrow>
          Inr (Arr2 \<lparr>n_cols = n,
                     m_rows = map (\<lambda>r. map (\<lambda>j. broadcast_get y j - broadcast_get r j) [0..<n])
                                  (m_rows P)\<rparr>))"

fun np_abs :: "ndarray \<Rightarrow> ndarray" where
  "np_abs (Arr1 xs) = Arr1 (map abs xs)"
| "np_abs (Arr2 M) = Arr2 (M\<lparr>m_rows := map (map abs) (m_rows M)\<rparr>)"

text \<open>\<^verbatim>\<open>np.mean\<close> without an axis: the mean of all entries; not-a-number for no entries.\<close>

definition mean_list :: "real list \<Rightarrow> npfloat" where
  "mean_list xs = (if xs = [] then None else Some (sum_list xs / real (length xs)))"

fun np_mean :: "ndarray \<Rightarrow> npfloat" where
  "np_mean (Arr1 xs) = mean_list xs"
| "np_mean (Arr2 M) = mean_list (concat (m_rows M))"

text \<open>
  \<^verbatim>\<open>np.round(x, decimals)\<close>: scale, round to the nearest integer with halves going to
  the even neighbour, scale back; not-a-number stays not-a-number.
\<close>

definition rint :: "real \<Rightarrow> int" where
  "rint x =
     (let f = \<lfloor>x\<rfloor>; d = x - of_int f
      in if d < 1 / 2 then f else if 1 / 2 < d then f + 1 else if even f then f else f + 1)"

definition np_round :: "real \<Rightarrow> nat \<Rightarrow> real" where
  "np_round x decimals = of_int (rint (x * 10 ^ decimals)) / 10 ^ decimals"

definition np_round_float :: "npfloat \<Rightarrow> nat \<Rightarrow> npfloat" where
  "np_round_float x decimals = map_option (\<lambda>v. np_round v decimals) x"

section \<open>The error metric\<close>

text \<open>
  Every regression cell of the first notebook computes its metric by the same expression:
  \<^verbatim>\<open>linreg_mae = np.mean(np.abs(y_test - linreg_prediction))\<close>
  (likewise \<open>ridge_mae\<close>, \<open>lasso_mae\<close>, \<open>elastic_net_mae\<close>, \<open>LAR_mae\<close>, \<open>pcareg_mae\<close>
  and \<open>pls_mae\<close>).
\<close>

definition mean_abs_error :: "real list \<Rightarrow> ndarray \<Rightarrow> error + npfloat" where
  "mean_abs_error y_test prediction =
     (case np_subtract y_test prediction of
        Inl e \<Rightarrow> Inl e
      | Inr diff \<Rightarrow> Inr (np_mean (np_abs diff)))"

section \<open>The Best Subset Regression cell\<close>

text \<open>
  The estimator is the library's; the cell only calls it. It is a parameter: \<open>fit\<close>
  trains on a feature matrix and a target and may raise, \<open>predict\<close> applies a fitted model
  and may raise, \<open>intercept\<close> and \<open>coef\<close> read the fitted attributes
  \<^verbatim>\<open>intercept_\<close> and \<^verbatim>\<open>coef_\<close>.
\<close>

record 'm estimator =
  fit :: "cell matrix \<Rightarrow> real list \<Rightarrow> error + 'm"
  predict :: "'m \<Rightarrow> cell matrix \<Rightarrow> error + ndarray"
  intercept :: "'m \<Rightarrow> real"
  coef :: "'m \<Rightarrow> real list"

text \<open>One row of the \<open>results\<close> table.\<close>

record result_row =
  num_features :: nat
  features :: "nat list"
  MAE :: npfloat

text \<open>
  The loop body, for one subset:
  \<^verbatim>\<open>
  linreg_model = LinearRegression(normalize=True).fit(X_train[:, subset], y_train)
  linreg_prediction = linreg_model.predict(X_test[:, subset])
  linreg_mae = np.mean(np.abs(y_test - linreg_prediction))
  results = results.append(pd.DataFrame([{'num_features': k, 'features': subset,
                                          'MAE': linreg_mae}]))
  \<close>
  The first component counts the calls of \<open>fit\<close> the body made (a ghost counter); the
  second is the row to append, or the exception raised.
\<close>

definition fit_subset ::
  "'m estimator \<Rightarrow> cell matrix \<Rightarrow> real list \<Rightarrow> cell matrix \<Rightarrow> real list \<Rightarrow>
   nat \<Rightarrow> nat list \<Rightarrow> nat \<times> (error + result_row)" where
  "fit_subset est X_train y_train X_test y_test k sub =
     (case take_columns X_train sub of
        Inl e \<Rightarrow> (0, Inl e)
      | Inr Xs \<Rightarrow>
          (1, case fit est Xs y_train of
                Inl e \<Rightarrow> Inl e
              | Inr linreg_model \<Rightarrow>
                  (case take_columns X_test sub of
                     Inl e \<Rightarrow> Inl e
                   | Inr Xt \<Rightarrow>
                       (case predict est linreg_model Xt of
                          Inl e \<Rightarrow> Inl e
                        | Inr linreg_prediction \<Rightarrow>
                            (case mean_abs_error y_test linreg_prediction of
                               Inl e \<Rightarrow> Inl e
                             | Inr linreg_mae \<Rightarrow>
                                 Inr \<lparr>num_features = k, features = sub,
                                      MAE = linreg_mae\<rparr>)))))"

text \<open>
  The inner loop, over the subsets of one size, and the outer loop, over the sizes. The
  state is the number of fits so far and the table \<open>results\<close> so far. An exception
  leaves the loops at once; the rows appended before it stay in \<open>results\<close>, so the
  loops give back the table in either case, with the exception if one was raised.
\<close>

fun inner_loop ::
  "(nat list \<Rightarrow> nat \<times> (error + result_row)) \<Rightarrow> nat list list \<Rightarrow>
   nat \<times> result_row list \<Rightarrow> nat \<times> result_row list \<times> error option" where
  "inner_loop body [] (n, results) = (n, results, None)"
| "inner_loop body (sub # rest) (n, results) =
     (case body sub of
        (c, Inl e) \<Rightarrow> (n + c, results, Some e)
      | (c, Inr row) \<Rightarrow> inner_loop body rest (n + c, results @ [row]))"

fun outer_loop ::
  "(nat \<Rightarrow> nat list \<Rightarrow> nat \<times> (error + result_row)) \<Rightarrow> nat \<Rightarrow> nat list \<Rightarrow>
   nat \<times> result_row list \<Rightarrow> nat \<times> result_row list \<times> error option" where
  "outer_loop body p [] (n, results) = (n, results, None)"
| "outer_loop body p (k # ks) (n, results) =
     (case inner_loop (body k) (combinations (range 0 p) k) (n, results) of
        (n', results', Some e) \<Rightarrow> (n', results', Some e)
      | (n', results', None) \<Rightarrow> outer_loop body p ks (n', results'))"

text \<open>
  \<^verbatim>\<open>results.sort_values('MAE')\<close> is the library's: ascending, not-a-number last, the
  order among equal keys left to the sorting algorithm. The sort is a parameter \<open>srt\<close>;
  \<open>sorts_by_MAE\<close> is its contract.
\<close>

fun nan_last_le :: "npfloat \<Rightarrow> npfloat \<Rightarrow> bool" where
  "nan_last_le _ None = True"
| "nan_last_le None (Some _) = False"
| "nan_last_le (Some a) (Some b) = (a \<le> b)"

definition sorts_by_MAE :: "(result_row list \<Rightarrow> result_row list) \<Rightarrow> result_row list \<Rightarrow> bool" where
  "sorts_by_MAE srt tbl \<longleftrightarrow>
     mset (srt tbl) = mset tbl \<and> sorted_wrt (\<lambda>a b. nan_last_le (MAE a) (MAE b)) (srt tbl)"

text \<open>What a cell prints, in order.\<close>

datatype printed = PrintTable "result_row list" | PrintMAE npfloat | PrintText string

text \<open>
  \<^verbatim>\<open>dict(zip(keys, values))\<close>: \<open>zip\<close> stops at the shorter side; a key that occurs twice
  keeps its last value.
\<close>

definition dict_zip :: "'k list \<Rightarrow> 'v list \<Rightarrow> ('k \<rightharpoonup> 'v)" where
  "dict_zip ks vs = map_of (rev (zip ks vs))"

text \<open>The variables a complete run of the cell assigns after the loops.\<close>

record 'm cell_vars =
  results :: "result_row list"
  best_subset_model :: 'm
  best_subset_coefs :: "string \<rightharpoonup> real"

text \<open>
  A run of the cell: the number of \<open>fit\<close> calls made, what was printed, the value the
  variable \<open>results\<close> holds when the cell stops, and the variables of a complete run or
  the exception.
  \<^verbatim>\<open>
  results = pd.DataFrame(columns=['num_features', 'features', 'MAE'])
  for k in ...
  results = results.sort_values('MAE').reset_index()
  print(results.head())
  best_subset_model = LinearRegression(normalize=True).fit(
      X_train[:, results['features'][0]], y_train)
  best_subset_coefs = dict(zip(['Intercept'] + data.columns.tolist()[:-1],
      np.round(np.concatenate((best_subset_model.intercept_,
                               best_subset_model.coef_), axis=None), 3)))
  print('Best Subset Regression MAE: {}'.format(np.round(results['MAE'][0], 3)))
  print('Best Subset Regression coefficients:')
  \<close>
  After \<open>reset_index\<close> the rows are labelled \<open>0, 1, ...\<close> in sorted order, so
  \<^verbatim>\<open>results['features'][0]\<close> is the first row's entry, and a KeyError on an empty table.
  When the loops raise, \<open>results\<close> keeps the rows appended so far, unsorted; after the
  loops it is the sorted table.
\<close>

record 'm cell_run =
  fits :: nat
  stdout :: "printed list"
  results_variable :: "result_row list"
  outcome :: "error + 'm cell_vars"

text \<open>The candidate keys of the coefficient dictionary.\<close>

definition coef_labels :: "string list \<Rightarrow> string list" where
  "coef_labels data_columns = ''Intercept'' # butlast data_columns"

definition best_subset_cell ::
  "'m estimator \<Rightarrow> (result_row list \<Rightarrow> result_row list) \<Rightarrow> string list \<Rightarrow>
   cell matrix \<Rightarrow> real list \<Rightarrow> cell matrix \<Rightarrow> real list \<Rightarrow> 'm cell_run" where
  "best_subset_cell est srt data_columns X_train y_train X_test y_test =
     (let p = n_cols X_train in
      case outer_loop (fit_subset est X_train y_train X_test y_test) p (range 1 (p + 1)) (0, []) of
        (n, tbl, Some e) \<Rightarrow>
          \<lparr>fits = n, stdout = [], results_variable = tbl, outcome = Inl e\<rparr>
      | (n, tbl, None) \<Rightarrow>
          (let sorted_results = srt tbl; out1 = [PrintTable (take 5 sorted_results)] in
           case sorted_results of
             [] \<Rightarrow> \<lparr>fits = n, stdout = out1, results_variable = sorted_results,
                    outcome = Inl KeyError\<rparr>
           | best # _ \<Rightarrow>
               (case take_columns X_train (features best) of
                  Inl e \<Rightarrow> \<lparr>fits = n, stdout = out1, results_variable = sorted_results,
                             outcome = Inl e\<rparr>
                | Inr Xs \<Rightarrow>
                    (case fit est Xs y_train of
                       Inl e \<Rightarrow> \<lparr>fits = n + 1, stdout = out1,
                                  results_variable = sorted_results, outcome = Inl e\<rparr>
                     | Inr model \<Rightarrow>
                         \<lparr>fits = n + 1,
                          stdout = out1 @ [PrintMAE (np_round_float (MAE best) 3),
                                           PrintText ''Best Subset Regression coefficients:''],
                          results_variable = sorted_results,
                          outcome = Inr \<lparr>results = sorted_results,
                                         best_subset_model = model,
                                         best_subset_coefs =
                                           dict_zip (coef_labels data_columns)
                                             (map (\<lambda>v. np_round v 3)
                                                (intercept est model # coef est model))\<rparr>\<rparr>))))"

text \<open>
  The test error of one subset, as the loop body computes it: fit on the subset's training
  columns, predict on the subset's test columns, average the absolute differences.
\<close>

definition subset_test_mae ::
  "'m estimator \<Rightarrow> cell matrix \<Rightarrow> real list \<Rightarrow> cell matrix \<Rightarrow> real list \<Rightarrow>
   nat list \<Rightarrow> error + npfloat" where
  "subset_test_mae est X_train y_train X_test y_test sub =
     (case take_columns X_train sub of
        Inl e \<Rightarrow> Inl e
      | Inr Xs \<Rightarrow>
          (case fit est Xs y_train of
             Inl e \<Rightarrow> Inl e
           | Inr model \<Rightarrow>
               (case take_columns X_test sub of
                  Inl e \<Rightarrow> Inl e
                | Inr Xt \<Rightarrow>
                    (case predict est model Xt of
                       Inl e \<Rightarrow> Inl e
                     | Inr prediction \<Rightarrow> mean_abs_error y_test prediction))))"

section \<open>A concrete sort and a concrete estimator\<close>

text \<open>
  To run the cell on concrete data the two library parameters need values. The sort is
  insertion sort on the \<open>MAE\<close> column, not-a-number last.
\<close>

fun insert_by_MAE :: "result_row \<Rightarrow> result_row list \<Rightarrow> result_row list" where
  "insert_by_MAE r [] = [r]"
| "insert_by_MAE r (s # ss) =
     (if nan_last_le (MAE r) (MAE s) then r # s # ss else s # insert_by_MAE r ss)"

fun sort_values_MAE :: "result_row list \<Rightarrow> result_row list" where
  "sort_values_MAE [] = []"
| "sort_values_MAE (r # rs) = insert_by_MAE r (sort_values_MAE rs)"

text \<open>
  The estimator is ordinary least squares with intercept, the \<^verbatim>\<open>LinearRegression\<close>
  of the notebook, computed from the normal equations of the centred columns by
  elimination. Like the library it first converts its input to floats, which fails on a
  cell that is not a number, and it refuses an array without rows or without columns and a
  target of another length. Where the centred columns are linearly dependent the library
  returns a least-norm solution; that case is not modelled, and the estimator answers it
  with an error of its own.
\<close>

fun cell_float :: "cell \<Rightarrow> real option" where
  "cell_float (Num x) = Some x"
| "cell_float (Str s) = None"

definition as_floats :: "cell list list \<Rightarrow> real list list option" where
  "as_floats rows = those (map (\<lambda>r. those (map cell_float r)) rows)"

text \<open>
  Elimination without pivoting, for the symmetric system of the normal equations: the
  solution when every pivot is non-zero (as it is when the matrix is positive definite),
  \<open>None\<close> at a zero pivot.
\<close>

function gauss_solve :: "real list list \<Rightarrow> real list \<Rightarrow> real list option" where
  "gauss_solve ((a # as) # rows) (b # bs) =
     (if a = 0 then None
      else case gauss_solve (map (\<lambda>r. map2 (\<lambda>u v. v - hd r / a * u) as (tl r)) rows)
                            (map2 (\<lambda>r c. c - hd r / a * b) rows bs) of
             None \<Rightarrow> None
           | Some xs \<Rightarrow> Some ((b - sum_list (map2 (*) as xs)) / a # xs))"
| "gauss_solve [] bs = Some []"
| "gauss_solve ([] # rows) bs = Some []"
| "gauss_solve ((a # as) # rows) [] = Some []"
  by pat_completeness auto
termination
  by (relation "measure (\<lambda>(A, b). length A)") auto

record linear_model =
  lm_intercept :: real
  lm_coef :: "real list"

definition ols_fit :: "cell matrix \<Rightarrow> real list \<Rightarrow> error + linear_model" where
  "ols_fit X y =
     (case as_floats (m_rows X) of
        None \<Rightarrow> Inl (LibraryError ''could not convert string to float'')
      | Some rows \<Rightarrow>
          if rows = [] then Inl (LibraryError ''array with 0 samples'')
          else if n_cols X = 0 then Inl (LibraryError ''array with 0 features'')
          else if length rows \<noteq> length y
          then Inl (LibraryError ''inconsistent numbers of samples'')
          else let n = real (length y);
                   js = [0..<n_cols X];
                   mx = map (\<lambda>j. sum_list (map (\<lambda>r. r ! j) rows) / n) js;
                   my = sum_list y / n;
                   xc = map (\<lambda>r. map2 (-) r mx) rows;
                   yc = map (\<lambda>v. v - my) y;
                   gram = map (\<lambda>i. map (\<lambda>j. sum_list (map (\<lambda>r. r ! i * r ! j) xc)) js) js;
                   rhs = map (\<lambda>i. sum_list (map2 (\<lambda>r v. r ! i * v) xc yc)) js
               in case gauss_solve gram rhs of
                    None \<Rightarrow> Inl (LibraryError ''dependent columns: not modelled'')
                  | Some b \<Rightarrow>
                      Inr \<lparr>lm_intercept = my - sum_list (map2 (*) b mx), lm_coef = b\<rparr>)"

definition linear_predict :: "linear_model \<Rightarrow> cell matrix \<Rightarrow> error + ndarray" where
  "linear_predict m X =
     (case as_floats (m_rows X) of
        None \<Rightarrow> Inl (LibraryError ''could not convert string to float'')
      | Some rows \<Rightarrow>
          if rows = [] then Inl (LibraryError ''array with 0 samples'')
          else if n_cols X \<noteq> length (lm_coef m)
          then Inl (LibraryError ''inconsistent numbers of features'')
          else Inr (Arr1 (map (\<lambda>r. lm_intercept m + sum_list (map2 (*) r (lm_coef m))) rows)))"

definition least_squares :: "linear_model estimator" where
  "least_squares =
     \<lparr>fit = ols_fit, predict = linear_predict, intercept = lm_intercept, coef = lm_coef\<rparr>"

section \<open>The other regression cells\<close>

text \<open>
  Each of the other regression cells fits one estimator on all training columns, predicts on
  the test rows and computes the metric by the same expression, for instance
  \<^verbatim>\<open>
  pls_model = search.fit(X_train, y_train)
  pls_prediction = pls_model.predict(X_test)
  pls_mae = np.mean(np.abs(y_test - pls_prediction))
  \<close>
  The shape of the prediction is the estimator's choice.
\<close>

definition regression_cell_mae ::
  "'m estimator \<Rightarrow> cell matrix \<Rightarrow> real list \<Rightarrow> cell matrix \<Rightarrow> real list \<Rightarrow>
   error + npfloat" where
  "regression_cell_mae est X_train y_train X_test y_test =
     (case fit est X_train y_train of
        Inl e \<Rightarrow> Inl e
      | Inr model \<Rightarrow>
          (case predict est model X_test of
             Inl e \<Rightarrow> Inl e
           | Inr prediction \<Rightarrow> mean_abs_error y_test prediction))"

text \<open>
  \<^verbatim>\<open>PLSRegression.predict\<close> returns one row per sample and one column per target: for
  a single target, an array of shape \<open>(n, 1)\<close>. \<open>as_column\<close> gives a prediction that
  shape, and \<open>column_least_squares\<close> is the concrete estimator with such predictions.
\<close>

fun as_column :: "ndarray \<Rightarrow> ndarray" where
  "as_column (Arr1 xs) = Arr2 \<lparr>n_cols = 1, m_rows = map (\<lambda>x. [x]) xs\<rparr>"
| "as_column (Arr2 M) = Arr2 M"

definition column_least_squares :: "linear_model estimator" where
  "column_least_squares =
     \<lparr>fit = ols_fit,
      predict = (\<lambda>m X. map_sum id as_column (linear_predict m X)),
      intercept = lm_intercept, coef = lm_coef\<rparr>"

section \<open>The data frame and the train-test split\<close>

text \<open>
  The frame read from \<open>prostate_data\<close> is its column labels and its rows of cells; every
  row has one cell per column and the labels are distinct (\<^verbatim>\<open>read_csv\<close> renames
  repeated labels).
\<close>

record dataframe =
  columns :: "string list"
  rws :: "cell list list"

definition well_formed :: "dataframe \<Rightarrow> bool" where
  "well_formed df \<longleftrightarrow>
     distinct (columns df) \<and> list_all (\<lambda>r. length r = length (columns df)) (rws df)"

fun index_of :: "'a \<Rightarrow> 'a list \<Rightarrow> nat option" where
  "index_of x [] = None"
| "index_of x (y # ys) = (if x = y then Some 0 else map_option Suc (index_of x ys))"

text \<open>
  One column by its label: \<^verbatim>\<open>data.train\<close> raises AttributeError and
  \<^verbatim>\<open>df['lpsa']\<close> raises KeyError when the label is missing.
\<close>

definition get_column :: "dataframe \<Rightarrow> string \<Rightarrow> error \<Rightarrow> error + cell list" where
  "get_column df label err =
     (case index_of label (columns df) of
        None \<Rightarrow> Inl err
      | Some i \<Rightarrow> Inr (map (\<lambda>r. r ! i) (rws df)))"

text \<open>\<^verbatim>\<open>data[mask]\<close>: the rows at which the boolean mask holds, in their order.\<close>

definition mask_rows :: "dataframe \<Rightarrow> bool list \<Rightarrow> dataframe" where
  "mask_rows df flags = df\<lparr>rws := map snd (filter fst (zip flags (rws df)))\<rparr>"

text \<open>
  \<^verbatim>\<open>df.drop(labels, axis=1)\<close>: the frame without the columns that carry one of the
  labels; KeyError when a label is missing.
\<close>

definition drop_columns :: "dataframe \<Rightarrow> string list \<Rightarrow> error + dataframe" where
  "drop_columns df labels =
     (if list_all (\<lambda>l. l \<in> set (columns df)) labels
      then let keep = filter (\<lambda>i. columns df ! i \<notin> set labels) [0..<length (columns df)]
           in Inr \<lparr>columns = map ((!) (columns df)) keep,
                   rws = map (\<lambda>r. map ((!) r) keep) (rws df)\<rparr>
      else Inl KeyError)"

text \<open>\<^verbatim>\<open>np.array(df)\<close>: the rows, with the number of columns as second axis.\<close>

definition np_array :: "dataframe \<Rightarrow> cell matrix" where
  "np_array df = \<lparr>n_cols = length (columns df), m_rows = rws df\<rparr>"

record train_test =
  sp_y_train :: "cell list"
  sp_y_test :: "cell list"
  sp_X_train :: "cell matrix"
  sp_X_test :: "cell matrix"

text \<open>
  \<^verbatim>\<open>
  y_train = np.array(data[data.train == "T"]['lpsa'])
  y_test = np.array(data[data.train == "F"]['lpsa'])
  X_train = np.array(data[data.train == "T"].drop(['lpsa', 'train'], axis=1))
  X_test = np.array(data[data.train == "F"].drop(['lpsa', 'train'], axis=1))
  \<close>
\<close>

definition train_test_split_cell :: "dataframe \<Rightarrow> error + train_test" where
  "train_test_split_cell data =
     (case get_column data ''train'' AttributeError of
        Inl e \<Rightarrow> Inl e
      | Inr train \<Rightarrow>
          (let is_T = map (\<lambda>c. c = Str ''T'') train;
               is_F = map (\<lambda>c. c = Str ''F'') train
           in case get_column (mask_rows data is_T) ''lpsa'' KeyError of
                Inl e \<Rightarrow> Inl e
              | Inr y_tr \<Rightarrow>
                  (case get_column (mask_rows data is_F) ''lpsa'' KeyError of
                     Inl e \<Rightarrow> Inl e
                   | Inr y_te \<Rightarrow>
                       (case drop_columns (mask_rows data is_T) [''lpsa'', ''train''] of
                          Inl e \<Rightarrow> Inl e
                        | Inr d_tr \<Rightarrow>
                            (case drop_columns (mask_rows data is_F) [''lpsa'', ''train''] of
                               Inl e \<Rightarrow> Inl e
                             | Inr d_te \<Rightarrow>
                                 Inr \<lparr>sp_y_train = y_tr, sp_y_test = y_te,
                                      sp_X_train = np_array d_tr,
                                      sp_X_test = np_array d_te\<rparr>)))))"

text \<open>
  For stating the claims about the split: the labels of the columns that remain in the
  feature matrices, the cells of one row under those labels, and the rows whose \<open>train\<close>
  cell is one of the two flags.
\<close>

definition feature_names :: "string list \<Rightarrow> string list" where
  "feature_names cols = filter (\<lambda>c. c \<noteq> ''lpsa'' \<and> c \<noteq> ''train'') cols"

definition feature_cells :: "string list \<Rightarrow> cell list \<Rightarrow> cell list" where
  "feature_cells cols r =
     map snd (filter (\<lambda>cv. fst cv \<noteq> ''lpsa'' \<and> fst cv \<noteq> ''train'') (zip cols r))"

definition flagged_rows :: "dataframe \<Rightarrow> cell list list" where
  "flagged_rows data =
     (case index_of ''train'' (columns data) of
        None \<Rightarrow> rws data
      | Some ti \<Rightarrow> filter (\<lambda>r. r ! ti = Str ''T'' \<or> r ! ti = Str ''F'') (rws data))"

section \<open>Concrete data\<close>

text \<open>
  A small data set with two feature columns \<open>a\<close> and \<open>b\<close>: three training rows and
  one test row. Least squares on column \<open>b\<close> alone predicts the test target exactly; on
  both columns it passes through the three training rows and misses the test target.
\<close>

definition demo_columns :: "string list" where
  "demo_columns = [''a'', ''b'', ''lpsa'', ''train'']"

definition demo_X_train :: "cell matrix" where
  "demo_X_train =
     \<lparr>n_cols = 2, m_rows = [[Num 0, Num 0], [Num 1, Num 1], [Num 0, Num 2]]\<rparr>"

definition demo_y_train :: "real list" where
  "demo_y_train = [3, 2, 4]"

definition demo_X_test :: "cell matrix" where
  "demo_X_test = \<lparr>n_cols = 2, m_rows = [[Num 4, Num 2]]\<rparr>"

definition demo_y_test :: "real list" where
  "demo_y_test = [7 / 2]"

text \<open>
  The same training rows with a cell of column \<open>b\<close> that is not a number: the fit on
  column \<open>a\<close> alone succeeds, every fit that includes column \<open>b\<close> is refused.
\<close>

definition text_X_train :: "cell matrix" where
  "text_X_train =
     \<lparr>n_cols = 2, m_rows = [[Num 0, Num 0], [Num 1, Str ''?''], [Num 0, Num 2]]\<rparr>"

definition demo_run :: "linear_model cell_run" where
  "demo_run =
     best_subset_cell least_squares sort_values_MAE demo_columns
       demo_X_train demo_y_train demo_X_test demo_y_test"

text \<open>A frame of four rows; the third row's flag is neither \<open>T\<close> nor \<open>F\<close>.\<close>

definition demo_data :: dataframe where
  "demo_data =
     \<lparr>columns = demo_columns,
      rws = [[Num 1, Num 0, Num 0, Str ''T''],
             [Num 1, Num 1, Num 1, Str ''T''],
             [Num 7, Num 8, Num 9, Str ''X''],
             [Num 5, Num 3, Num 3, Str ''F'']]\<rparr>"

section \<open>Properties of the enumeration\<close>

lemma combinations_subseq_iff:
  "ys \<in> set (combinations xs k) \<longleftrightarrow> subseq ys xs \<and> length ys = k"
proof (induction xs k arbitrary: ys rule: combinations.induct)
  case (1 xs)
  then show ?case by auto
next
  case (2 k)
  then show ?case by auto
next
  case (3 x xs k)
  show ?case
  proof (cases ys)
    case Nil
    then show ?thesis using 3 by auto
  next
    case (Cons y zs)
    then show ?thesis using 3 by (auto dest: subseq_Cons')
  qed
qed

lemma subseq_set_mono: "subseq xs ys \<Longrightarrow> set xs \<subseteq> set ys"
  by (induction rule: list_emb.induct) auto

lemma subseq_sorted_wrt: "subseq xs ys \<Longrightarrow> sorted_wrt R ys \<Longrightarrow> sorted_wrt R xs"
proof (induction rule: list_emb.induct)
  case (list_emb_Cons2 x y xs ys)
  then show ?case using subseq_set_mono[of xs ys] by auto
qed auto

lemma combinations_distinct: "distinct xs \<Longrightarrow> distinct (combinations xs k)"
proof (induction xs k rule: combinations.induct)
  case (3 x xs k)
  have "x \<notin> set ys" if "ys \<in> set (combinations xs (Suc k))" for ys
    using that 3(3) subseq_set_mono[of ys xs] by (auto simp: combinations_subseq_iff)
  then have disj: "(#) x ` set (combinations xs k) \<inter> set (combinations xs (Suc k)) = {}"
    by force
  have "distinct (map ((#) x) (combinations xs k))" "distinct (combinations xs (Suc k))"
    using 3 by (simp_all add: distinct_map)
  then show ?case using disj by simp
qed simp_all

lemma length_combinations: "length (combinations xs k) = length xs choose k"
  by (induction xs k rule: combinations.induct) simp_all

lemma set_subsets_of_sizes:
  "set (subsets_of_sizes p ks) = {ys. subseq ys [0..<p] \<and> length ys \<in> set ks}"
proof (induction ks)
  case Nil
  show ?case by simp
next
  case (Cons k ks)
  have "set (combinations (range 0 p) k) = {ys. subseq ys [0..<p] \<and> length ys = k}"
    using combinations_subseq_iff[of _ "[0..<p]" k] by (auto simp only: range_def)
  then show ?case using Cons by auto
qed

lemma distinct_subsets_of_sizes:
  "distinct ks \<Longrightarrow> distinct (subsets_of_sizes p ks)"
proof (induction ks)
  case Nil
  show ?case by simp
next
  case (Cons k ks)
  have "distinct (combinations (range 0 p) k)"
    by (rule combinations_distinct) (simp add: range_def)
  moreover have "length ys = k" if "ys \<in> set (combinations (range 0 p) k)" for ys
    using that by (simp only: combinations_subseq_iff)
  moreover have "length ys \<in> set ks" if "ys \<in> set (subsets_of_sizes p ks)" for ys
    using that by (simp only: set_subsets_of_sizes mem_Collect_eq)
  ultimately show ?case using Cons by auto
qed

lemma length_subsets_of_sizes:
  "length (subsets_of_sizes p ks) = sum_list (map (\<lambda>k. p choose k) ks)"
  by (induction ks) (simp_all add: length_combinations range_def)

lemma set_enumerated_subsets:
  "set (enumerated_subsets p) = {ys. subseq ys [0..<p] \<and> ys \<noteq> []}"
proof -
  have "length ys \<le> p" if "subseq ys [0..<p]" for ys
    using list_emb_length[OF that] by simp
  moreover have "set (enumerated_subsets p) = {ys. subseq ys [0..<p] \<and> length ys \<in> {1..<p + 1}}"
    by (simp add: enumerated_subsets_def set_subsets_of_sizes range_def del: upt_Suc)
  ultimately show ?thesis
    by (auto simp: Suc_le_eq less_Suc_eq_le)
qed

lemma distinct_enumerated_subsets: "distinct (enumerated_subsets p)"
  by (simp add: enumerated_subsets_def distinct_subsets_of_sizes range_def)

lemma length_enumerated_subsets: "length (enumerated_subsets p) = 2 ^ p - 1"
proof -
  have "length (enumerated_subsets p) = (\<Sum>k \<in> {Suc 0..<Suc p}. p choose k)"
    by (simp add: enumerated_subsets_def length_subsets_of_sizes range_def
        interv_sum_list_conv_sum_set_nat del: upt_Suc)
  moreover have "(\<Sum>k \<in> {0..<Suc p}. p choose k) = (p choose 0) + (\<Sum>k \<in> {Suc 0..<Suc p}. p choose k)"
    by (rule sum.atLeast_Suc_lessThan) simp
  moreover have "(\<Sum>k \<in> {0..<Suc p}. p choose k) = 2 ^ p"
    using choose_row_sum[of p] by (simp add: atLeast0LessThan lessThan_Suc_atMost)
  ultimately show ?thesis by simp
qed

lemma subseq_upt_set_eq:
  assumes "subseq ys [0..<p]" "subseq zs [0..<p]" "set ys = set zs"
  shows "ys = zs"
proof -
  have "sorted_wrt (<) ys" "sorted_wrt (<) zs"
    using assms subseq_sorted_wrt[of _ "[0..<p]" "(<)"] by simp_all
  then have "sorted ys" "distinct ys" "sorted zs" "distinct zs"
    by (simp_all add: strict_sorted_iff)
  then show ?thesis using assms(3) by (rule sorted_distinct_set_unique)
qed

lemma set_image_subseq_upt: "set ` {ys. subseq ys [0..<p]} = Pow {0..<p}"
proof
  show "set ` {ys. subseq ys [0..<p]} \<subseteq> Pow {0..<p}"
    using subseq_set_mono[of _ "[0..<p]"] by auto
next
  show "Pow {0..<p} \<subseteq> set ` {ys. subseq ys [0..<p]}"
  proof
    fix S assume "S \<in> Pow {0..<p}"
    then have "set (filter (\<lambda>i. i \<in> S) [0..<p]) = S" by auto
    moreover have "subseq (filter (\<lambda>i. i \<in> S) [0..<p]) [0..<p]" by simp
    ultimately show "S \<in> set ` {ys. subseq ys [0..<p]}" by blast
  qed
qed

section \<open>Properties of the loops\<close>

lemma inner_loop_append:
  "inner_loop body (xs @ ys) (n, t) =
     (case inner_loop body xs (n, t) of
        (n', t', Some e) \<Rightarrow> (n', t', Some e)
      | (n', t', None) \<Rightarrow> inner_loop body ys (n', t'))"
  by (induction xs arbitrary: n t) (simp_all split: prod.splits sum.splits option.splits)

lemma inner_loop_cong_set:
  "(\<And>s. s \<in> set ss \<Longrightarrow> f s = g s) \<Longrightarrow> inner_loop f ss (n, t) = inner_loop g ss (n, t)"
  by (induction ss arbitrary: n t) (simp_all split: prod.splits sum.splits)

lemma outer_loop_flat:
  "outer_loop body p ks (n, t) =
     inner_loop (\<lambda>s. body (length s) s) (subsets_of_sizes p ks) (n, t)"
proof (induction ks arbitrary: n t)
  case Nil
  show ?case by simp
next
  case (Cons k ks)
  have "inner_loop (body k) (combinations (range 0 p) k) (n, t) =
        inner_loop (\<lambda>s. body (length s) s) (combinations (range 0 p) k) (n, t)"
    by (rule inner_loop_cong_set) (simp add: combinations_subseq_iff)
  then show ?case using Cons
    by (simp add: inner_loop_append split: prod.splits sum.splits option.splits)
qed

lemma inner_loop_all_ok:
  "list_all (\<lambda>s. \<not> isl (snd (B s))) ss \<Longrightarrow>
   inner_loop B ss (n, t) =
     (n + sum_list (map (\<lambda>s. fst (B s)) ss), t @ map (\<lambda>s. projr (snd (B s))) ss, None)"
proof (induction ss arbitrary: n t)
  case Nil
  show ?case by simp
next
  case (Cons s ss)
  obtain c r where B: "B s = (c, r)" by (cases "B s")
  with Cons.prems obtain row where r: "r = Inr row" by (cases r) simp_all
  from Cons.prems have "list_all (\<lambda>s. \<not> isl (snd (B s))) ss" by simp
  from Cons.IH[OF this] show ?case by (simp add: B r)
qed

lemma inner_loop_first_failure:
  assumes "list_all (\<lambda>s. \<not> isl (snd (B s))) pre" and "snd (B s) = Inl e"
  shows "inner_loop B (pre @ s # post) (n, t) =
           (n + sum_list (map (\<lambda>s. fst (B s)) (pre @ [s])),
            t @ map (\<lambda>s. projr (snd (B s))) pre, Some e)"
proof -
  obtain c where "B s = (c, Inl e)" using assms(2) by (cases "B s") simp
  then show ?thesis
    by (simp add: inner_loop_append inner_loop_all_ok[OF assms(1)])
qed

lemma first_failure_split:
  assumes "\<not> list_all P ss"
  obtains pre s post where "ss = pre @ s # post" "list_all P pre" "\<not> P s"
proof -
  from assms have "\<exists>x\<in>set ss. \<not> P x" by (simp add: list_all_iff)
  from split_list_first_prop[OF this] obtain pre s post
    where "ss = pre @ s # post" "\<not> P s" "\<forall>y\<in>set pre. \<not> \<not> P y" by blast
  then show ?thesis using that by (simp add: list_all_iff)
qed

lemma fit_subset_fst_le: "fst (fit_subset est X_train y_train X_test y_test k sub) \<le> 1"
  by (simp add: fit_subset_def split: sum.splits)

lemma fit_subset_snd:
  "snd (fit_subset est X_train y_train X_test y_test k sub) =
     map_sum id (\<lambda>m. \<lparr>num_features = k, features = sub, MAE = m\<rparr>)
       (subset_test_mae est X_train y_train X_test y_test sub)"
  by (simp add: fit_subset_def subset_test_mae_def split: sum.splits)

lemma fit_subset_fst_ok:
  "\<not> isl (subset_test_mae est X_train y_train X_test y_test sub) \<Longrightarrow>
   fst (fit_subset est X_train y_train X_test y_test k sub) = 1"
  by (simp add: fit_subset_def subset_test_mae_def split: sum.splits)

lemma main_loop_flat:
  "outer_loop (fit_subset est X_train y_train X_test y_test) p (range 1 (p + 1)) (0, []) =
   inner_loop (\<lambda>s. fit_subset est X_train y_train X_test y_test (length s) s)
     (enumerated_subsets p) (0, [])"
  by (simp only: outer_loop_flat enumerated_subsets_def)

lemma sum_list_le_length:
  "(\<And>x. x \<in> set xs \<Longrightarrow> f x \<le> (1::nat)) \<Longrightarrow> sum_list (map f xs) \<le> length xs"
proof (induction xs)
  case Nil
  show ?case by simp
next
  case (Cons a xs)
  have "f a \<le> 1" using Cons.prems by simp
  moreover have "sum_list (map f xs) \<le> length xs" using Cons by simp
  ultimately show ?case by simp
qed

lemma isl_map_sum: "isl (map_sum f g x) = isl x"
  by (cases x) simp_all

lemma rows_of_ok:
  assumes "list_all (\<lambda>s. \<not> isl (subset_test_mae est X_train y_train X_test y_test s)) ss"
  shows "map (\<lambda>s. projr (snd (fit_subset est X_train y_train X_test y_test (length s) s))) ss =
         map (\<lambda>s. \<lparr>num_features = length s, features = s,
                    MAE = projr (subset_test_mae est X_train y_train X_test y_test s)\<rparr>) ss"
proof (intro map_cong refl)
  let ?T = "subset_test_mae est X_train y_train X_test y_test"
  fix s assume "s \<in> set ss"
  then have "\<not> isl (?T s)" using assms by (simp add: list_all_iff)
  then obtain m where "?T s = Inr m" by (cases "?T s") simp_all
  then show "projr (snd (fit_subset est X_train y_train X_test y_test (length s) s)) =
             \<lparr>num_features = length s, features = s, MAE = projr (?T s)\<rparr>"
    by (simp add: fit_subset_snd)
qed

lemma loop_all_ok:
  assumes "list_all (\<lambda>s. \<not> isl (subset_test_mae est X_train y_train X_test y_test s))
             (enumerated_subsets p)"
  shows "outer_loop (fit_subset est X_train y_train X_test y_test) p (range 1 (p + 1)) (0, []) =
           (length (enumerated_subsets p),
            map (\<lambda>s. \<lparr>num_features = length s, features = s,
                       MAE = projr (subset_test_mae est X_train y_train X_test y_test s)\<rparr>)
              (enumerated_subsets p),
            None)"
proof -
  let ?B = "\<lambda>s. fit_subset est X_train y_train X_test y_test (length s) s"
  let ?T = "subset_test_mae est X_train y_train X_test y_test"
  let ?ss = "enumerated_subsets p"
  have ok: "list_all (\<lambda>s. \<not> isl (snd (?B s))) ?ss"
    using assms by (simp add: fit_subset_snd isl_map_sum)
  have "map (\<lambda>s. fst (?B s)) ?ss = map (\<lambda>s. 1) ?ss"
    using assms by (intro map_cong refl fit_subset_fst_ok) (simp add: list_all_iff)
  then have "sum_list (map (\<lambda>s. fst (?B s)) ?ss) = sum_list (map (\<lambda>s. 1) ?ss)"
    by (rule arg_cong)
  also have "\<dots> = length ?ss"
    by (simp add: sum_list_triv)
  finally have cnt: "sum_list (map (\<lambda>s. fst (?B s)) ?ss) = length ?ss" .
  note rows = rows_of_ok[OF assms]
  show ?thesis
    by (simp only: main_loop_flat inner_loop_all_ok[OF ok] cnt rows) simp
qed

lemma loop_first_failure:
  assumes "enumerated_subsets p = pre @ s # post"
    and "list_all (\<lambda>s. \<not> isl (subset_test_mae est X_train y_train X_test y_test s)) pre"
    and "subset_test_mae est X_train y_train X_test y_test s = Inl e"
  shows "\<exists>n. n \<le> length pre + 1 \<and>
           outer_loop (fit_subset est X_train y_train X_test y_test) p (range 1 (p + 1)) (0, []) =
             (n,
              map (\<lambda>s. \<lparr>num_features = length s, features = s,
                         MAE = projr (subset_test_mae est X_train y_train X_test y_test s)\<rparr>)
                pre,
              Some e)"
proof -
  let ?B = "\<lambda>s. fit_subset est X_train y_train X_test y_test (length s) s"
  have ok: "list_all (\<lambda>s. \<not> isl (snd (?B s))) pre"
    using assms(2) by (simp add: fit_subset_snd isl_map_sum)
  have bad: "snd (?B s) = Inl e"
    using assms(3) by (simp add: fit_subset_snd)
  have "sum_list (map (\<lambda>s. fst (?B s)) (pre @ [s])) \<le> length (pre @ [s])"
    by (rule sum_list_le_length) (rule fit_subset_fst_le)
  then show ?thesis
    by (simp only: main_loop_flat assms(1) inner_loop_first_failure[OF ok bad]
        rows_of_ok[OF assms(2)]) simp
qed

lemma best_subset_cell_failure:
  assumes "enumerated_subsets (n_cols X_train) = pre @ s # post"
    and "list_all (\<lambda>s. \<not> isl (subset_test_mae est X_train y_train X_test y_test s)) pre"
    and "subset_test_mae est X_train y_train X_test y_test s = Inl e"
  shows "\<exists>n. n \<le> length pre + 1 \<and>
           best_subset_cell est srt cols X_train y_train X_test y_test =
             \<lparr>fits = n, stdout = [],
              results_variable =
                map (\<lambda>s. \<lparr>num_features = length s, features = s,
                           MAE = projr (subset_test_mae est X_train y_train X_test y_test s)\<rparr>)
                  pre,
              outcome = Inl e\<rparr>"
proof -
  from loop_first_failure[OF assms] obtain n where "n \<le> length pre + 1"
    "outer_loop (fit_subset est X_train y_train X_test y_test) (n_cols X_train)
       (range 1 (n_cols X_train + 1)) (0, []) =
       (n,
        map (\<lambda>s. \<lparr>num_features = length s, features = s,
                   MAE = projr (subset_test_mae est X_train y_train X_test y_test s)\<rparr>)
          pre,
        Some e)" by blast
  then show ?thesis by (simp add: best_subset_cell_def Let_def)
qed

lemma best_subset_cell_success:
  assumes "outcome (best_subset_cell est srt cols X_train y_train X_test y_test) = Inr vars"
  obtains best rest Xs where
    "list_all (\<lambda>s. \<not> isl (subset_test_mae est X_train y_train X_test y_test s))
       (enumerated_subsets (n_cols X_train))"
    "srt (map (\<lambda>s. \<lparr>num_features = length s, features = s,
                      MAE = projr (subset_test_mae est X_train y_train X_test y_test s)\<rparr>)
            (enumerated_subsets (n_cols X_train))) = best # rest"
    "results vars = best # rest"
    "take_columns X_train (features best) = Inr Xs"
    "fit est Xs y_train = Inr (best_subset_model vars)"
    "best_subset_coefs vars =
       dict_zip (coef_labels cols)
         (map (\<lambda>v. np_round v 3)
            (intercept est (best_subset_model vars) # coef est (best_subset_model vars)))"
    "results_variable (best_subset_cell est srt cols X_train y_train X_test y_test) =
       best # rest"
    "stdout (best_subset_cell est srt cols X_train y_train X_test y_test) =
       [PrintTable (take 5 (best # rest)), PrintMAE (np_round_float (MAE best) 3),
        PrintText ''Best Subset Regression coefficients:'']"
    "fits (best_subset_cell est srt cols X_train y_train X_test y_test) =
       length (enumerated_subsets (n_cols X_train)) + 1"
proof -
  let ?T = "subset_test_mae est X_train y_train X_test y_test"
  let ?ss = "enumerated_subsets (n_cols X_train)"
  let ?run = "best_subset_cell est srt cols X_train y_train X_test y_test"
  have ok: "list_all (\<lambda>s. \<not> isl (?T s)) ?ss"
  proof (rule ccontr)
    assume "\<not> ?thesis"
    then obtain pre s post where split: "?ss = pre @ s # post"
      "list_all (\<lambda>s. \<not> isl (?T s)) pre" "\<not> \<not> isl (?T s)"
      by (rule first_failure_split)
    then obtain e where "?T s = Inl e" by (cases "?T s") simp_all
    from best_subset_cell_failure[OF split(1,2) this, of srt cols]
    show False using assms by auto
  qed
  let ?tbl = "map (\<lambda>s. \<lparr>num_features = length s, features = s, MAE = projr (?T s)\<rparr>) ?ss"
  note loop = loop_all_ok[OF ok]
  show ?thesis
  proof (cases "srt ?tbl")
    case Nil
    then have "outcome ?run = Inl KeyError"
      using loop by (simp add: best_subset_cell_def Let_def)
    then show ?thesis using assms by simp
  next
    case (Cons best rest)
    show ?thesis
    proof (cases "take_columns X_train (features best)")
      case (Inl e)
      then have "outcome ?run = Inl e"
        using loop by (simp add: best_subset_cell_def Let_def Cons)
      then show ?thesis using assms by simp
    next
      case (Inr Xs)
      show ?thesis
      proof (cases "fit est Xs y_train")
        case (Inl e)
        then have "outcome ?run = Inl e"
          using loop by (simp add: best_subset_cell_def Let_def Cons Inr)
        then show ?thesis using assms by simp
      next
        case fitted: (Inr model)
        have run: "?run =
          \<lparr>fits = length ?ss + 1,
           stdout = [PrintTable (take 5 (best # rest)), PrintMAE (np_round_float (MAE best) 3),
                     PrintText ''Best Subset Regression coefficients:''],
           results_variable = best # rest,
           outcome = Inr \<lparr>results = best # rest, best_subset_model = model,
                          best_subset_coefs =
                            dict_zip (coef_labels cols)
                              (map (\<lambda>v. np_round v 3) (intercept est model # coef est model))\<rparr>\<rparr>"
          using loop by (simp add: best_subset_cell_def Let_def Cons Inr fitted)
        with assms have vars: "vars = \<lparr>results = best # rest, best_subset_model = model,
                          best_subset_coefs =
                            dict_zip (coef_labels cols)
                              (map (\<lambda>v. np_round v 3) (intercept est model # coef est model))\<rparr>"
          by simp
        show ?thesis
          by (rule that[of best rest Xs]) (simp_all add: ok Cons Inr fitted vars run)
      qed
    qed
  qed
qed

section \<open>The concrete sort meets the contract\<close>

lemma nan_last_le_refl: "nan_last_le a a"
  by (cases a) simp_all

lemma nan_last_le_total: "nan_last_le a b \<or> nan_last_le b a"
  by (cases a; cases b) auto

lemma nan_last_le_trans: "nan_last_le a b \<Longrightarrow> nan_last_le b c \<Longrightarrow> nan_last_le a c"
  by (cases a; cases b; cases c) auto

lemma mset_insert_by_MAE: "mset (insert_by_MAE r ss) = add_mset r (mset ss)"
  by (induction ss) simp_all

lemma set_insert_by_MAE: "set (insert_by_MAE r ss) = insert r (set ss)"
  by (induction ss) auto

lemma sorted_insert_by_MAE:
  "sorted_wrt (\<lambda>a b. nan_last_le (MAE a) (MAE b)) ss \<Longrightarrow>
   sorted_wrt (\<lambda>a b. nan_last_le (MAE a) (MAE b)) (insert_by_MAE r ss)"
proof (induction ss)
  case Nil
  show ?case by simp
next
  case (Cons s ss)
  show ?case
  proof (cases "nan_last_le (MAE r) (MAE s)")
    case True
    then have "\<forall>x\<in>set ss. nan_last_le (MAE r) (MAE x)"
      using Cons.prems nan_last_le_trans by auto
    then show ?thesis using True Cons.prems by simp
  next
    case False
    then have "nan_last_le (MAE s) (MAE r)"
      using nan_last_le_total by blast
    then show ?thesis using False Cons by (simp add: set_insert_by_MAE)
  qed
qed

lemma sort_values_MAE_contract: "sorts_by_MAE sort_values_MAE tbl"
  unfolding sorts_by_MAE_def
  by (induction tbl) (simp_all add: mset_insert_by_MAE sorted_insert_by_MAE)

section \<open>The number of fits\<close>

lemma best_subset_cell_fits_le:
  "fits (best_subset_cell est srt cols X_train y_train X_test y_test) \<le>
     length (enumerated_subsets (n_cols X_train)) + 1"
proof (cases "list_all (\<lambda>s. \<not> isl (subset_test_mae est X_train y_train X_test y_test s))
                (enumerated_subsets (n_cols X_train))")
  case True
  from loop_all_ok[OF True] show ?thesis
    by (simp add: best_subset_cell_def Let_def split: list.splits sum.splits)
next
  case False
  then obtain pre s post where split: "enumerated_subsets (n_cols X_train) = pre @ s # post"
    "list_all (\<lambda>s. \<not> isl (subset_test_mae est X_train y_train X_test y_test s)) pre"
    "\<not> \<not> isl (subset_test_mae est X_train y_train X_test y_test s)"
    by (rule first_failure_split)
  then obtain e where "subset_test_mae est X_train y_train X_test y_test s = Inl e"
    by (cases "subset_test_mae est X_train y_train X_test y_test s") simp_all
  from best_subset_cell_failure[OF split(1,2) this, of srt cols] show ?thesis
    using split(1) by auto
qed

section \<open>Claims about the Best Subset Regression cell\<close>

text \<open>
  Claim C1, as amended. Whenever the cell runs to its end, with a sort that meets the
  contract of \<^verbatim>\<open>sort_values\<close>: the first row of the sorted table names an enumerated
  subset and holds that subset's test error; its test error is no greater (not-a-number
  counting as greatest) than the test error of every enumerated subset; the model kept as
  \<open>best_subset_model\<close> is the fit on that subset's training columns; and the value
  printed after "Best Subset Regression MAE" is that least test error rounded to three
  decimals by \<^verbatim>\<open>np.round\<close>, not the error itself.
\<close>

theorem best_subset_selects_min_mae_prints_rounded:
  assumes contract: "\<And>tbl. sorts_by_MAE srt tbl"
    and run: "outcome (best_subset_cell est srt cols X_train y_train X_test y_test) = Inr vars"
  shows "results vars \<noteq> [] \<and>
         features (hd (results vars)) \<in> set (enumerated_subsets (n_cols X_train)) \<and>
         subset_test_mae est X_train y_train X_test y_test (features (hd (results vars))) =
           Inr (MAE (hd (results vars))) \<and>
         (\<forall>s\<in>set (enumerated_subsets (n_cols X_train)).
            \<exists>m. subset_test_mae est X_train y_train X_test y_test s = Inr m \<and>
                nan_last_le (MAE (hd (results vars))) m) \<and>
         (\<exists>Xs. take_columns X_train (features (hd (results vars))) = Inr Xs \<and>
               fit est Xs y_train = Inr (best_subset_model vars)) \<and>
         stdout (best_subset_cell est srt cols X_train y_train X_test y_test) ! 1 =
           PrintMAE (np_round_float (MAE (hd (results vars))) 3)"
proof -
  let ?T = "subset_test_mae est X_train y_train X_test y_test"
  let ?ss = "enumerated_subsets (n_cols X_train)"
  let ?row = "\<lambda>s. \<lparr>num_features = length s, features = s, MAE = projr (?T s)\<rparr>"
  from run obtain best rest Xs where
    ok: "list_all (\<lambda>s. \<not> isl (?T s)) ?ss"
    and srt: "srt (map ?row ?ss) = best # rest"
    and res: "results vars = best # rest"
    and cols: "take_columns X_train (features best) = Inr Xs"
    and fitted: "fit est Xs y_train = Inr (best_subset_model vars)"
    and out: "stdout (best_subset_cell est srt cols X_train y_train X_test y_test) =
       [PrintTable (take 5 (best # rest)), PrintMAE (np_round_float (MAE best) 3),
        PrintText ''Best Subset Regression coefficients:'']"
    by (rule best_subset_cell_success)
  have T: "?T s = Inr (projr (?T s))" if "s \<in> set ?ss" for s
    using ok that by (simp add: list_all_iff)
  from contract[of "map ?row ?ss"] have perm: "mset (best # rest) = mset (map ?row ?ss)"
    and sorted: "sorted_wrt (\<lambda>a b. nan_last_le (MAE a) (MAE b)) (best # rest)"
    by (simp_all add: sorts_by_MAE_def srt)
  have "set (best # rest) = set (map ?row ?ss)"
    using perm by (rule mset_eq_setD)
  then have sets: "set (best # rest) = ?row ` set ?ss"
    by simp
  then obtain s0 where s0: "s0 \<in> set ?ss" "best = ?row s0" by auto
  have le: "nan_last_le (MAE best) (projr (?T s))" if "s \<in> set ?ss" for s
  proof -
    from that sets have "?row s \<in> set (best # rest)" by blast
    then consider "?row s = best" | "?row s \<in> set rest" by auto
    then show ?thesis
    proof cases
      case 1
      then have "MAE (?row s) = MAE best" by (rule arg_cong)
      then show ?thesis by (simp add: nan_last_le_refl)
    next
      case 2
      with sorted have "nan_last_le (MAE best) (MAE (?row s))" by auto
      then show ?thesis by simp
    qed
  qed
  have best: "features best = s0" "MAE best = projr (?T s0)" using s0(2) by simp_all
  have c1: "results vars \<noteq> []" by (simp add: res)
  have c2: "features (hd (results vars)) \<in> set ?ss" by (simp add: res best s0(1))
  have c3: "?T (features (hd (results vars))) = Inr (MAE (hd (results vars)))"
    using T[OF s0(1)] by (simp add: res best)
  have c4: "\<forall>s\<in>set ?ss. \<exists>m. ?T s = Inr m \<and> nan_last_le (MAE (hd (results vars))) m"
  proof
    fix s assume "s \<in> set ?ss"
    then have "?T s = Inr (projr (?T s))" "nan_last_le (MAE best) (projr (?T s))"
      by (rule T, rule le)
    then show "\<exists>m. ?T s = Inr m \<and> nan_last_le (MAE (hd (results vars))) m"
      unfolding res list.sel by blast
  qed
  have c5: "\<exists>Xs. take_columns X_train (features (hd (results vars))) = Inr Xs \<and>
               fit est Xs y_train = Inr (best_subset_model vars)"
    using cols fitted by (simp add: res)
  have c6: "stdout (best_subset_cell est srt cols X_train y_train X_test y_test) ! 1 =
           PrintMAE (np_round_float (MAE (hd (results vars))) 3)"
    by (simp add: res out)
  from c1 c2 c3 c4 c5 c6 show ?thesis by (intro conjI)
qed

text \<open>
  The theorem at the concrete data: the insertion sort meets the contract, the run ends
  normally, the winner is the subset \<open>[1]\<close> with test error \<open>0\<close>.
\<close>

theorem best_subset_selects_min_mae_prints_rounded_witness:
  "(\<forall>tbl. sorts_by_MAE sort_values_MAE tbl) \<and>
   outcome demo_run = Inr (projr (outcome demo_run)) \<and>
   features (hd (results (projr (outcome demo_run)))) = [1] \<and>
   [1] \<in> set (enumerated_subsets (n_cols demo_X_train)) \<and>
   MAE (hd (results (projr (outcome demo_run)))) = Some 0 \<and>
   list_all
     (\<lambda>s. \<exists>m. subset_test_mae least_squares demo_X_train demo_y_train demo_X_test demo_y_test s
                 = Inr m \<and> nan_last_le (Some 0) m)
     (enumerated_subsets (n_cols demo_X_train)) \<and>
   stdout demo_run ! 1 = PrintMAE (np_round_float (Some 0) 3)"
proof -
  have h1: "sorts_by_MAE sort_values_MAE tbl" for tbl
    by (rule sort_values_MAE_contract)
  have "\<not> isl (outcome demo_run)"
    by code_simp
  then have h2: "outcome demo_run = Inr (projr (outcome demo_run))"
    by simp
  have f: "features (hd (results (projr (outcome demo_run)))) = [1]"
    by code_simp
  have m: "MAE (hd (results (projr (outcome demo_run)))) = Some 0"
    by code_simp
  from best_subset_selects_min_mae_prints_rounded[OF h1 h2[unfolded demo_run_def]]
  show ?thesis
    using h1 h2 by (simp add: f m list_all_iff flip: demo_run_def)
qed

text \<open>
  Claim C1 as written says the printed value equals the least test error. One feature column
  \<open>x\<close>, training rows \<open>(0, 0)\<close> and \<open>(1, 1)\<close>, one test row with \<open>x = 0\<close> and
  target \<open>0.0004\<close>: least squares predicts \<open>0\<close>, the only subset has test error
  \<open>0.0004\<close>, and the cell prints \<open>0\<close>.
\<close>

theorem printed_mae_equals_min_mae_counterexample:
  "stdout (best_subset_cell least_squares sort_values_MAE [''x'', ''lpsa'', ''train'']
             \<lparr>n_cols = 1, m_rows = [[Num 0], [Num 1]]\<rparr> [0, 1]
             \<lparr>n_cols = 1, m_rows = [[Num 0]]\<rparr> [1 / 2500]) =
     [PrintTable [\<lparr>num_features = 1, features = [0], MAE = Some (1 / 2500)\<rparr>],
      PrintMAE (Some 0),
      PrintText ''Best Subset Regression coefficients:'']"
  by code_simp

lemma mset_map_perm: "mset xs = mset ys \<Longrightarrow> mset (map f xs) = mset (map f ys)"
  by simp

text \<open>
  Claim C2, as amended. The loop starts at size one, so the empty subset is never visited:
  the visited subsets are the non-empty subsets of the \<open>p\<close> column positions, each
  visited once (the list has no repetition and no two entries hold the same set). When the
  cell runs to its end, the table has one row for each visited subset, and every row
  records the test error of its subset.
\<close>

theorem enumeration_nonempty_subsets_once:
  "distinct (enumerated_subsets p) \<and>
   inj_on set (set (enumerated_subsets p)) \<and>
   set ` set (enumerated_subsets p) = {S. S \<subseteq> {0..<p} \<and> S \<noteq> {}} \<and>
   ((\<forall>tbl. sorts_by_MAE srt tbl) \<longrightarrow> p = n_cols X_train \<longrightarrow>
    outcome (best_subset_cell est srt cols X_train y_train X_test y_test) = Inr vars \<longrightarrow>
      mset (map features (results vars)) = mset (enumerated_subsets p) \<and>
      (\<forall>r\<in>set (results vars).
         subset_test_mae est X_train y_train X_test y_test (features r) = Inr (MAE r)))"
proof -
  have c1: "distinct (enumerated_subsets p)"
    by (rule distinct_enumerated_subsets)
  have c2: "inj_on set (set (enumerated_subsets p))"
    by (rule inj_onI) (auto simp: set_enumerated_subsets intro: subseq_upt_set_eq)
  have "set ` set (enumerated_subsets p) = set ` {ys. subseq ys [0..<p]} - {{}}"
    by (auto simp: set_enumerated_subsets)
  then have c3: "set ` set (enumerated_subsets p) = {S. S \<subseteq> {0..<p} \<and> S \<noteq> {}}"
    by (auto simp: set_image_subseq_upt)
  have c4: "mset (map features (results vars)) = mset (enumerated_subsets p) \<and>
      (\<forall>r\<in>set (results vars).
         subset_test_mae est X_train y_train X_test y_test (features r) = Inr (MAE r))"
    if contract: "\<forall>tbl. sorts_by_MAE srt tbl" and p: "p = n_cols X_train"
      and run: "outcome (best_subset_cell est srt cols X_train y_train X_test y_test) = Inr vars"
  proof -
    let ?T = "subset_test_mae est X_train y_train X_test y_test"
    let ?ss = "enumerated_subsets (n_cols X_train)"
    let ?row = "\<lambda>s. \<lparr>num_features = length s, features = s, MAE = projr (?T s)\<rparr>"
    from run obtain best rest Xs where
      ok: "list_all (\<lambda>s. \<not> isl (?T s)) ?ss"
      and srt: "srt (map ?row ?ss) = best # rest"
      and res: "results vars = best # rest"
      by (rule best_subset_cell_success)
    from contract have perm: "mset (results vars) = mset (map ?row ?ss)"
      by (simp add: sorts_by_MAE_def srt[symmetric] res)
    have a: "mset (map features (results vars)) = mset (map features (map ?row ?ss))"
      using perm by (rule mset_map_perm)
    have b: "map features (map ?row ?ss) = ?ss"
      by (simp add: comp_def)
    from a have m: "mset (map features (results vars)) = mset ?ss"
      by (simp only: b)
    have "set (results vars) = set (map ?row ?ss)"
      using perm by (rule mset_eq_setD)
    then have rows: "set (results vars) = ?row ` set ?ss" by simp
    have "?T (features r) = Inr (MAE r)" if "r \<in> set (results vars)" for r
    proof -
      from that rows obtain s where s: "s \<in> set ?ss" "r = ?row s" by auto
      then have "\<not> isl (?T s)" using ok by (simp add: list_all_iff)
      then show ?thesis using s(2) by simp
    qed
    with m show ?thesis by (simp add: p)
  qed
  from c1 c2 c3 c4 show ?thesis by blast
qed

text \<open>
  The theorem at the concrete data with two feature columns: the subsets \<open>{0}\<close>, \<open>{1}\<close>
  and \<open>{0, 1}\<close> are visited, and the run's table has exactly their three rows.
\<close>

theorem enumeration_nonempty_subsets_once_witness:
  "(\<forall>tbl. sorts_by_MAE sort_values_MAE tbl) \<and>
   (2::nat) = n_cols demo_X_train \<and>
   outcome demo_run = Inr (projr (outcome demo_run)) \<and>
   set ` set (enumerated_subsets 2) = {S. S \<subseteq> {0..<2} \<and> S \<noteq> {}} \<and>
   mset (map features (results (projr (outcome demo_run)))) = mset (enumerated_subsets 2) \<and>
   list_all
     (\<lambda>r. subset_test_mae least_squares demo_X_train demo_y_train demo_X_test demo_y_test
             (features r) = Inr (MAE r))
     (results (projr (outcome demo_run)))"
proof -
  have h1: "\<forall>tbl. sorts_by_MAE sort_values_MAE tbl"
    by (simp add: sort_values_MAE_contract)
  have h2: "(2::nat) = n_cols demo_X_train"
    by (simp add: demo_X_train_def)
  have "\<not> isl (outcome demo_run)"
    by code_simp
  then have h3: "outcome demo_run = Inr (projr (outcome demo_run))"
    by simp
  from enumeration_nonempty_subsets_once[of 2 sort_values_MAE demo_X_train least_squares
      demo_columns demo_y_train demo_X_test demo_y_test "projr (outcome demo_run)"]
  show ?thesis
    using h1 h2 h3 by (simp add: list_all_iff flip: demo_run_def)
qed

text \<open>
  Claim C2 as written counts every subset of the column positions. With two columns the
  loop visits three subsets; the empty set is a subset of \<open>{0, 1}\<close> and is not among them.
\<close>

theorem enumeration_all_subsets_counterexample:
  "enumerated_subsets 2 = [[0], [1], [0, 1]] \<and>
   {} \<in> Pow {0..<2::nat} \<and>
   {} \<notin> set ` set (enumerated_subsets 2)"
proof -
  have e: "enumerated_subsets 2 = [[0], [1], [0, 1]]"
    by code_simp
  then show ?thesis by simp
qed

text \<open>
  Claim C7, as amended. The loop has no handler: when the body fails at some enumerated
  subset (the column selection, the fit, the prediction or the metric raises), the cell ends
  with the exception of the first subset that fails, having printed nothing, with no sorted
  table, no best model and no coefficients. The variable \<open>results\<close> is not empty-handed,
  though: it holds, unsorted, the rows appended for the subsets visited before the failing
  one.
\<close>

theorem first_failure_ends_cell:
  assumes "\<not> list_all (\<lambda>s. \<not> isl (subset_test_mae est X_train y_train X_test y_test s))
               (enumerated_subsets (n_cols X_train))"
  shows "\<exists>pre s post e.
           enumerated_subsets (n_cols X_train) = pre @ s # post \<and>
           list_all (\<lambda>s. \<not> isl (subset_test_mae est X_train y_train X_test y_test s)) pre \<and>
           subset_test_mae est X_train y_train X_test y_test s = Inl e \<and>
           outcome (best_subset_cell est srt cols X_train y_train X_test y_test) = Inl e \<and>
           stdout (best_subset_cell est srt cols X_train y_train X_test y_test) = [] \<and>
           results_variable (best_subset_cell est srt cols X_train y_train X_test y_test) =
             map (\<lambda>s. \<lparr>num_features = length s, features = s,
                        MAE = projr (subset_test_mae est X_train y_train X_test y_test s)\<rparr>)
               pre"
proof -
  let ?T = "subset_test_mae est X_train y_train X_test y_test"
  let ?row = "\<lambda>s. \<lparr>num_features = length s, features = s, MAE = projr (?T s)\<rparr>"
  from assms obtain pre s post where split:
    "enumerated_subsets (n_cols X_train) = pre @ s # post"
    "list_all (\<lambda>s. \<not> isl (?T s)) pre" "\<not> \<not> isl (?T s)"
    by (rule first_failure_split)
  then obtain e where e: "?T s = Inl e" by (cases "?T s") simp_all
  from best_subset_cell_failure[OF split(1,2) e, of srt cols] obtain n where
    "best_subset_cell est srt cols X_train y_train X_test y_test =
       \<lparr>fits = n, stdout = [], results_variable = map ?row pre, outcome = Inl e\<rparr>" by blast
  then have "outcome (best_subset_cell est srt cols X_train y_train X_test y_test) = Inl e"
    "stdout (best_subset_cell est srt cols X_train y_train X_test y_test) = []"
    "results_variable (best_subset_cell est srt cols X_train y_train X_test y_test) = map ?row pre"
    by simp_all
  with split(1,2) e show ?thesis by blast
qed

text \<open>
  The theorem at a concrete failing input: the training target has two entries for three
  training rows, so the estimator refuses the first fit and \<open>results\<close> stays the empty
  table the cell began with.
\<close>

theorem first_failure_ends_cell_witness:
  "\<not> list_all
       (\<lambda>s. \<not> isl (subset_test_mae least_squares demo_X_train [0, 1] demo_X_test demo_y_test s))
       (enumerated_subsets (n_cols demo_X_train)) \<and>
   (\<exists>pre s post e.
      enumerated_subsets (n_cols demo_X_train) = pre @ s # post \<and>
      list_all
        (\<lambda>s. \<not> isl (subset_test_mae least_squares demo_X_train [0, 1] demo_X_test demo_y_test s))
        pre \<and>
      subset_test_mae least_squares demo_X_train [0, 1] demo_X_test demo_y_test s = Inl e \<and>
      outcome (best_subset_cell least_squares sort_values_MAE demo_columns
                 demo_X_train [0, 1] demo_X_test demo_y_test) = Inl e \<and>
      stdout (best_subset_cell least_squares sort_values_MAE demo_columns
                demo_X_train [0, 1] demo_X_test demo_y_test) = [] \<and>
      results_variable (best_subset_cell least_squares sort_values_MAE demo_columns
                          demo_X_train [0, 1] demo_X_test demo_y_test) =
        map (\<lambda>s. \<lparr>num_features = length s, features = s,
                   MAE = projr (subset_test_mae least_squares demo_X_train [0, 1]
                                  demo_X_test demo_y_test s)\<rparr>)
          pre) \<and>
   map_sum id results
     (outcome (best_subset_cell least_squares sort_values_MAE demo_columns
                 demo_X_train [0, 1] demo_X_test demo_y_test)) =
     Inl (LibraryError ''inconsistent numbers of samples'') \<and>
   results_variable (best_subset_cell least_squares sort_values_MAE demo_columns
                       demo_X_train [0, 1] demo_X_test demo_y_test) = []"
proof -
  have h: "\<not> list_all
       (\<lambda>s. \<not> isl (subset_test_mae least_squares demo_X_train [0, 1] demo_X_test demo_y_test s))
       (enumerated_subsets (n_cols demo_X_train))"
    by code_simp
  have o: "map_sum id results
     (outcome (best_subset_cell least_squares sort_values_MAE demo_columns
                 demo_X_train [0, 1] demo_X_test demo_y_test)) =
     Inl (LibraryError ''inconsistent numbers of samples'')"
    by code_simp
  have r: "results_variable (best_subset_cell least_squares sort_values_MAE demo_columns
                       demo_X_train [0, 1] demo_X_test demo_y_test) = []"
    by code_simp
  from first_failure_ends_cell[OF h, of sort_values_MAE demo_columns] h o r
  show ?thesis by (intro conjI)
qed

text \<open>
  Claim C7 as written says a failing run yields no results table. Three training rows with
  the columns \<open>a\<close> and \<open>b\<close>, where one cell of \<open>b\<close> holds the text \<open>?\<close>: the fit on
  column \<open>a\<close> succeeds and its row is appended, the fit on column \<open>b\<close> is refused. The
  cell ends with that exception after two fits, has printed nothing, and \<open>results\<close> holds
  a table of one row.
\<close>

theorem failing_run_leaves_rows_counterexample:
  "enumerated_subsets (n_cols text_X_train) = [[0], [1], [0, 1]] \<and>
   subset_test_mae least_squares text_X_train demo_y_train demo_X_test demo_y_test [1] =
     Inl (LibraryError ''could not convert string to float'') \<and>
   map_sum id results
     (outcome (best_subset_cell least_squares sort_values_MAE demo_columns
                 text_X_train demo_y_train demo_X_test demo_y_test)) =
     Inl (LibraryError ''could not convert string to float'') \<and>
   stdout (best_subset_cell least_squares sort_values_MAE demo_columns
             text_X_train demo_y_train demo_X_test demo_y_test) = [] \<and>
   fits (best_subset_cell least_squares sort_values_MAE demo_columns
           text_X_train demo_y_train demo_X_test demo_y_test) = 2 \<and>
   results_variable (best_subset_cell least_squares sort_values_MAE demo_columns
                       text_X_train demo_y_train demo_X_test demo_y_test) =
     [\<lparr>num_features = 1, features = [0], MAE = Some 6\<rparr>]"
  by code_simp

text \<open>
  Claim C8. The cell is a pair of nested loops over finite lists, so it ends on every input
  (the model is total, by structural recursion). For \<open>p\<close> training feature columns the loops
  visit \<open>2 ^ p - 1\<close> subsets and call \<open>fit\<close> at most once for each; with the one fit
  of the best model after the loops, a run makes at most \<open>2 ^ p\<close> fits, whether it ends
  normally or with an exception.
\<close>

theorem best_subset_fits_bounded:
  "fits (best_subset_cell est srt cols X_train y_train X_test y_test) \<le> 2 ^ n_cols X_train \<and>
   fst (outer_loop (fit_subset est X_train y_train X_test y_test) (n_cols X_train)
          (range 1 (n_cols X_train + 1)) (0, []))
     \<le> length (enumerated_subsets (n_cols X_train)) \<and>
   length (enumerated_subsets (n_cols X_train)) = 2 ^ n_cols X_train - 1"
proof -
  let ?p = "n_cols X_train"
  let ?T = "subset_test_mae est X_train y_train X_test y_test"
  have len: "length (enumerated_subsets ?p) = 2 ^ ?p - 1"
    by (rule length_enumerated_subsets)
  have "fits (best_subset_cell est srt cols X_train y_train X_test y_test)
          \<le> length (enumerated_subsets ?p) + 1"
    by (rule best_subset_cell_fits_le)
  then have c1: "fits (best_subset_cell est srt cols X_train y_train X_test y_test) \<le> 2 ^ ?p"
    by (simp add: len)
  have c2: "fst (outer_loop (fit_subset est X_train y_train X_test y_test) ?p
                   (range 1 (?p + 1)) (0, [])) \<le> length (enumerated_subsets ?p)"
  proof (cases "list_all (\<lambda>s. \<not> isl (?T s)) (enumerated_subsets ?p)")
    case True
    from loop_all_ok[OF True] show ?thesis by simp
  next
    case False
    then obtain pre s post where split: "enumerated_subsets ?p = pre @ s # post"
      "list_all (\<lambda>s. \<not> isl (?T s)) pre" "\<not> \<not> isl (?T s)"
      by (rule first_failure_split)
    then obtain e where "?T s = Inl e" by (cases "?T s") simp_all
    from loop_first_failure[OF split(1,2) this] show ?thesis
      using split(1) by auto
  qed
  from c1 c2 len show ?thesis by (intro conjI)
qed

text \<open>The bound at the concrete data: two columns, three subsets, four fits.\<close>

theorem best_subset_fits_bounded_witness:
  "fits demo_run = 4 \<and> fits demo_run \<le> 2 ^ n_cols demo_X_train \<and>
   length (enumerated_subsets (n_cols demo_X_train)) = 3"
proof -
  have "fits demo_run = 4" by code_simp
  moreover have "n_cols demo_X_train = 2" by (simp add: demo_X_train_def)
  ultimately show ?thesis
    using best_subset_fits_bounded[of least_squares sort_values_MAE demo_columns
        demo_X_train demo_y_train demo_X_test demo_y_test]
    by (simp flip: demo_run_def)
qed

section \<open>Claims about the metric\<close>

lemma map_broadcast_sub:
  assumes "length p = length y"
  shows "map (\<lambda>j. broadcast_get y j - broadcast_get p j) [0..<length y] = map2 (-) y p"
proof (rule nth_equalityI)
  show "length (map (\<lambda>j. broadcast_get y j - broadcast_get p j) [0..<length y]) =
        length (map2 (-) y p)"
    using assms by simp
next
  fix i assume "i < length (map (\<lambda>j. broadcast_get y j - broadcast_get p j) [0..<length y])"
  then have i: "i < length y" by simp
  then have "broadcast_get y i = y ! i" "broadcast_get p i = p ! i"
    using assms by (auto simp: broadcast_get_def)
  then show "map (\<lambda>j. broadcast_get y j - broadcast_get p j) [0..<length y] ! i =
             map2 (-) y p ! i"
    using i assms by simp
qed

lemma mean_abs_error_same_length:
  assumes "length p = length y" and "y \<noteq> []"
  shows "mean_abs_error y (Arr1 p) =
           Inr (Some (sum_list (map2 (\<lambda>a b. \<bar>a - b\<bar>) y p) / real (length y)))"
proof -
  have sub: "np_subtract y (Arr1 p) = Inr (Arr1 (map2 (-) y p))"
    using assms(1) by (simp add: broadcast_len_def map_broadcast_sub)
  have ab: "map abs (map2 (-) y p) = map2 (\<lambda>a b. \<bar>a - b\<bar>) y p"
    by (simp add: case_prod_unfold)
  have ne: "map2 (\<lambda>a b. \<bar>a - b\<bar>) y p \<noteq> []"
    using assms by (cases y; cases p) simp_all
  have len: "length (map2 (\<lambda>a b. \<bar>a - b\<bar>) y p) = length y"
    using assms(1) by simp
  have "mean_abs_error y (Arr1 p) = Inr (mean_list (map abs (map2 (-) y p)))"
    by (simp only: mean_abs_error_def sub sum.case np_abs.simps np_mean.simps)
  also have "\<dots> = Inr (mean_list (map2 (\<lambda>a b. \<bar>a - b\<bar>) y p))"
    by (simp only: ab)
  also have "\<dots> = Inr (Some (sum_list (map2 (\<lambda>a b. \<bar>a - b\<bar>) y p) / real (length y)))"
    unfolding mean_list_def using ne len by simp
  finally show ?thesis .
qed

text \<open>
  Claim C3 at the Partial Least Squares cell. One feature, five training rows on the line
  \<open>y = x\<close>, and the test rows \<open>(0, 0)\<close> and \<open>(1, 1)\<close>: the fitted line predicts both
  test targets exactly, so the mean absolute difference between targets and predictions is
  \<open>0\<close>. With the predictions as a one-dimensional array the cell's expression gives
  \<open>0\<close>; with the predictions as a column of shape \<open>(2, 1)\<close> the subtraction broadcasts
  to a \<open>2 \<times> 2\<close> array of all pairwise differences and the cell reports \<open>1/2\<close>.
\<close>

theorem pls_mae_averages_all_pairs:
  "regression_cell_mae column_least_squares
     \<lparr>n_cols = 1, m_rows = [[Num 0], [Num 1], [Num 2], [Num 3], [Num 4]]\<rparr> [0, 1, 2, 3, 4]
     \<lparr>n_cols = 1, m_rows = [[Num 0], [Num 1]]\<rparr> [0, 1] =
     Inr (Some (1 / 2)) \<and>
   regression_cell_mae least_squares
     \<lparr>n_cols = 1, m_rows = [[Num 0], [Num 1], [Num 2], [Num 3], [Num 4]]\<rparr> [0, 1, 2, 3, 4]
     \<lparr>n_cols = 1, m_rows = [[Num 0], [Num 1]]\<rparr> [0, 1] =
     Inr (Some 0) \<and>
   predict column_least_squares \<lparr>lm_intercept = 0, lm_coef = [1]\<rparr>
     \<lparr>n_cols = 1, m_rows = [[Num 0], [Num 1]]\<rparr> = Inr (Arr2 \<lparr>n_cols = 1, m_rows = [[0], [1]]\<rparr>) \<and>
   np_subtract [0, 1] (Arr2 \<lparr>n_cols = 1, m_rows = [[0], [1]]\<rparr>) =
     Inr (Arr2 \<lparr>n_cols = 2, m_rows = [[0, 1], [- 1, 0]]\<rparr>)"
  by code_simp

section \<open>Properties of the split\<close>

lemma index_of_Some: "index_of x xs = Some i \<Longrightarrow> i < length xs \<and> xs ! i = x"
  by (induction xs arbitrary: i) (auto split: if_splits)

lemma index_of_None: "index_of x xs = None \<longleftrightarrow> x \<notin> set xs"
  by (induction xs) auto

lemma index_of_mem: "x \<in> set xs \<Longrightarrow> \<exists>i. index_of x xs = Some i"
  using index_of_None[of x xs] by (cases "index_of x xs") simp_all

lemma filter_by_flags: "map snd (filter fst (zip (map f xs) xs)) = filter f xs"
  by (induction xs) simp_all

lemma get_column_at:
  "index_of label (columns df) = Some i \<Longrightarrow>
   get_column df label err = Inr (map (\<lambda>r. r ! i) (rws df))"
  by (simp add: get_column_def)

lemma mask_rows_eq_filter:
  "mask_rows df (map (\<lambda>c. c = v) (map (\<lambda>r. r ! i) (rws df))) =
   df\<lparr>rws := filter (\<lambda>r. r ! i = v) (rws df)\<rparr>"
proof -
  have "map (\<lambda>c. c = v) (map (\<lambda>r. r ! i) (rws df)) = map (\<lambda>r. r ! i = v) (rws df)"
    by simp
  then show ?thesis
    by (simp only: mask_rows_def filter_by_flags)
qed

lemma zip_as_map_upt:
  "length xs = length zs \<Longrightarrow> zip xs zs = map (\<lambda>i. (xs ! i, zs ! i)) [0..<length xs]"
  by (rule nth_equalityI) simp_all

lemma nths_by_label:
  assumes "length zs = length xs"
  shows "map ((!) zs) (filter (\<lambda>i. P (xs ! i)) [0..<length xs]) =
         map snd (filter (\<lambda>cv. P (fst cv)) (zip xs zs))"
proof -
  have "zip xs zs = map (\<lambda>i. (xs ! i, zs ! i)) [0..<length xs]"
    using assms by (intro zip_as_map_upt) simp
  then have "map snd (filter (\<lambda>cv. P (fst cv)) (zip xs zs)) =
             map snd (filter (\<lambda>cv. P (fst cv)) (map (\<lambda>i. (xs ! i, zs ! i)) [0..<length xs]))"
    by (rule arg_cong)
  also have "\<dots> = map ((!) zs) (filter (\<lambda>i. P (xs ! i)) [0..<length xs])"
    by (simp add: filter_map comp_def)
  finally show ?thesis by (rule sym)
qed

lemma labels_kept:
  "map ((!) xs) (filter (\<lambda>i. P (xs ! i)) [0..<length xs]) = filter P xs"
proof -
  have "filter P xs = filter P (map ((!) xs) [0..<length xs])"
    by (simp only: map_nth)
  also have "\<dots> = map ((!) xs) (filter (\<lambda>i. P (xs ! i)) [0..<length xs])"
    by (simp add: filter_map comp_def)
  finally show ?thesis by (rule sym)
qed

lemma drop_columns_target_flag:
  assumes "''lpsa'' \<in> set (columns df)" and "''train'' \<in> set (columns df)"
    and "list_all (\<lambda>r. length r = length (columns df)) (rws df)"
  shows "drop_columns df [''lpsa'', ''train''] =
           Inr \<lparr>columns = feature_names (columns df),
                rws = map (feature_cells (columns df)) (rws df)\<rparr>"
proof -
  let ?P = "\<lambda>c. c \<noteq> ''lpsa'' \<and> c \<noteq> ''train''"
  let ?keep = "filter (\<lambda>i. ?P (columns df ! i)) [0..<length (columns df)]"
  have names: "map ((!) (columns df)) ?keep = feature_names (columns df)"
    unfolding feature_names_def by (rule labels_kept)
  have cells: "map (\<lambda>r. map ((!) r) ?keep) (rws df) = map (feature_cells (columns df)) (rws df)"
  proof (rule map_cong[OF refl])
    fix r assume "r \<in> set (rws df)"
    then have "length r = length (columns df)" using assms(3) by (simp add: list_all_iff)
    then show "map ((!) r) ?keep = feature_cells (columns df) r"
      unfolding feature_cells_def by (rule nths_by_label)
  qed
  have "drop_columns df [''lpsa'', ''train''] =
          Inr \<lparr>columns = map ((!) (columns df)) ?keep,
               rws = map (\<lambda>r. map ((!) r) ?keep) (rws df)\<rparr>"
    using assms(1,2) by (simp add: drop_columns_def Let_def)
  then show ?thesis by (simp only: names cells)
qed

lemma split_normal_form:
  assumes "index_of ''train'' (columns data) = Some ti"
  shows "train_test_split_cell data =
     (case get_column (data\<lparr>rws := filter (\<lambda>r. r ! ti = Str ''T'') (rws data)\<rparr>) ''lpsa'' KeyError of
        Inl e \<Rightarrow> Inl e
      | Inr y_tr \<Rightarrow>
         (case get_column (data\<lparr>rws := filter (\<lambda>r. r ! ti = Str ''F'') (rws data)\<rparr>) ''lpsa'' KeyError of
            Inl e \<Rightarrow> Inl e
          | Inr y_te \<Rightarrow>
             (case drop_columns (data\<lparr>rws := filter (\<lambda>r. r ! ti = Str ''T'') (rws data)\<rparr>)
                     [''lpsa'', ''train''] of
                Inl e \<Rightarrow> Inl e
              | Inr d_tr \<Rightarrow>
                 (case drop_columns (data\<lparr>rws := filter (\<lambda>r. r ! ti = Str ''F'') (rws data)\<rparr>)
                         [''lpsa'', ''train''] of
                    Inl e \<Rightarrow> Inl e
                  | Inr d_te \<Rightarrow>
                      Inr \<lparr>sp_y_train = y_tr, sp_y_test = y_te,
                           sp_X_train = np_array d_tr, sp_X_test = np_array d_te\<rparr>))))"
  unfolding train_test_split_cell_def get_column_at[OF assms] sum.case Let_def mask_rows_eq_filter
  by (rule refl)

lemma split_no_train_column:
  "index_of ''train'' (columns data) = None \<Longrightarrow> train_test_split_cell data = Inl AttributeError"
  by (simp add: train_test_split_cell_def get_column_def)

lemma split_no_lpsa_column:
  assumes "index_of ''train'' (columns data) = Some ti"
    and "index_of ''lpsa'' (columns data) = None"
  shows "train_test_split_cell data = Inl KeyError"
  using assms(2) by (simp add: split_normal_form[OF assms(1)] get_column_def)

lemma split_value:
  assumes wf: "well_formed data"
    and ti: "index_of ''train'' (columns data) = Some ti"
    and li: "index_of ''lpsa'' (columns data) = Some li"
  shows "train_test_split_cell data =
      Inr \<lparr>sp_y_train = map (\<lambda>r. r ! li) (filter (\<lambda>r. r ! ti = Str ''T'') (rws data)),
           sp_y_test = map (\<lambda>r. r ! li) (filter (\<lambda>r. r ! ti = Str ''F'') (rws data)),
           sp_X_train =
             \<lparr>n_cols = length (feature_names (columns data)),
              m_rows = map (feature_cells (columns data))
                         (filter (\<lambda>r. r ! ti = Str ''T'') (rws data))\<rparr>,
           sp_X_test =
             \<lparr>n_cols = length (feature_names (columns data)),
              m_rows = map (feature_cells (columns data))
                         (filter (\<lambda>r. r ! ti = Str ''F'') (rws data))\<rparr>\<rparr>"
proof -
  have mem: "''lpsa'' \<in> set (columns data)" "''train'' \<in> set (columns data)"
    using ti li index_of_None[of "''lpsa''" "columns data"]
      index_of_None[of "''train''" "columns data"] by auto
  have len: "list_all (\<lambda>r. length r = length (columns data)) (filter Q (rws data))" for Q
    using wf by (simp add: well_formed_def list_all_iff)
  have dropped: "drop_columns (data\<lparr>rws := filter Q (rws data)\<rparr>) [''lpsa'', ''train''] =
      Inr \<lparr>columns = feature_names (columns data),
           rws = map (feature_cells (columns data)) (filter Q (rws data))\<rparr>" for Q
    using drop_columns_target_flag[of "data\<lparr>rws := filter Q (rws data)\<rparr>"] mem len[of Q]
    by simp
  have col: "get_column (data\<lparr>rws := filter Q (rws data)\<rparr>) ''lpsa'' KeyError =
      Inr (map (\<lambda>r. r ! li) (filter Q (rws data)))" for Q
    using get_column_at[of "''lpsa''" "data\<lparr>rws := filter Q (rws data)\<rparr>" li KeyError] li
    by simp
  show ?thesis
    unfolding split_normal_form[OF ti] col dropped sum.case np_array_def by simp
qed

lemma split_success_form:
  assumes wf: "well_formed data" and ok: "train_test_split_cell data = Inr sp"
  obtains ti li where
    "index_of ''train'' (columns data) = Some ti"
    "index_of ''lpsa'' (columns data) = Some li"
    "sp = \<lparr>sp_y_train = map (\<lambda>r. r ! li) (filter (\<lambda>r. r ! ti = Str ''T'') (rws data)),
           sp_y_test = map (\<lambda>r. r ! li) (filter (\<lambda>r. r ! ti = Str ''F'') (rws data)),
           sp_X_train =
             \<lparr>n_cols = length (feature_names (columns data)),
              m_rows = map (feature_cells (columns data))
                         (filter (\<lambda>r. r ! ti = Str ''T'') (rws data))\<rparr>,
           sp_X_test =
             \<lparr>n_cols = length (feature_names (columns data)),
              m_rows = map (feature_cells (columns data))
                         (filter (\<lambda>r. r ! ti = Str ''F'') (rws data))\<rparr>\<rparr>"
proof -
  obtain ti where ti: "index_of ''train'' (columns data) = Some ti"
    using ok split_no_train_column[of data] by (cases "index_of ''train'' (columns data)") auto
  obtain li where li: "index_of ''lpsa'' (columns data) = Some li"
  proof (cases "index_of ''lpsa'' (columns data)")
    case None
    then have "train_test_split_cell data = Inl KeyError"
      by (simp add: split_normal_form[OF ti] get_column_def)
    with ok show ?thesis by simp
  next
    case (Some li)
    then show ?thesis by (rule that)
  qed
  have mem: "''lpsa'' \<in> set (columns data)" "''train'' \<in> set (columns data)"
    using ti li index_of_None[of "''lpsa''" "columns data"]
      index_of_None[of "''train''" "columns data"] by auto
  have len: "list_all (\<lambda>r. length r = length (columns data)) (filter Q (rws data))" for Q
    using wf by (simp add: well_formed_def list_all_iff)
  have dropped: "drop_columns (data\<lparr>rws := filter Q (rws data)\<rparr>) [''lpsa'', ''train''] =
      Inr \<lparr>columns = feature_names (columns data),
           rws = map (feature_cells (columns data)) (filter Q (rws data))\<rparr>" for Q
    using drop_columns_target_flag[of "data\<lparr>rws := filter Q (rws data)\<rparr>"] mem len[of Q]
    by simp
  have col: "get_column (data\<lparr>rws := filter Q (rws data)\<rparr>) ''lpsa'' KeyError =
      Inr (map (\<lambda>r. r ! li) (filter Q (rws data)))" for Q
    using get_column_at[of "''lpsa''" "data\<lparr>rws := filter Q (rws data)\<rparr>" li KeyError] li
    by simp
  have "train_test_split_cell data =
      Inr \<lparr>sp_y_train = map (\<lambda>r. r ! li) (filter (\<lambda>r. r ! ti = Str ''T'') (rws data)),
           sp_y_test = map (\<lambda>r. r ! li) (filter (\<lambda>r. r ! ti = Str ''F'') (rws data)),
           sp_X_train =
             \<lparr>n_cols = length (feature_names (columns data)),
              m_rows = map (feature_cells (columns data))
                         (filter (\<lambda>r. r ! ti = Str ''T'') (rws data))\<rparr>,
           sp_X_test =
             \<lparr>n_cols = length (feature_names (columns data)),
              m_rows = map (feature_cells (columns data))
                         (filter (\<lambda>r. r ! ti = Str ''F'') (rws data))\<rparr>\<rparr>"
    unfolding split_normal_form[OF ti] col dropped sum.case np_array_def by simp
  with ok have "sp = \<lparr>sp_y_train = map (\<lambda>r. r ! li) (filter (\<lambda>r. r ! ti = Str ''T'') (rws data)),
           sp_y_test = map (\<lambda>r. r ! li) (filter (\<lambda>r. r ! ti = Str ''F'') (rws data)),
           sp_X_train =
             \<lparr>n_cols = length (feature_names (columns data)),
              m_rows = map (feature_cells (columns data))
                         (filter (\<lambda>r. r ! ti = Str ''T'') (rws data))\<rparr>,
           sp_X_test =
             \<lparr>n_cols = length (feature_names (columns data)),
              m_rows = map (feature_cells (columns data))
                         (filter (\<lambda>r. r ! ti = Str ''F'') (rws data))\<rparr>\<rparr>"
    by simp
  with ti li show ?thesis by (rule that)
qed

section \<open>Claims about the split\<close>

text \<open>
  Claim C4. On a well-formed frame the split is decided by its labels and its \<open>train\<close>
  cells. Without a \<open>train\<close> column it raises AttributeError; with it and without an
  \<open>lpsa\<close> column it raises KeyError. With both it succeeds, and with \<open>ti\<close> and \<open>li\<close>
  the positions of the two columns: the training target and feature rows come from the rows
  flagged \<open>T\<close>, the test target and feature rows from the rows flagged \<open>F\<close>, each in the
  frame's row order; a feature row holds the row's cells under every label other than
  \<open>lpsa\<close> and \<open>train\<close>, in column order; and the labels of the feature columns are the
  frame's labels without exactly those two.
\<close>

theorem split_by_train_column:
  assumes "well_formed data"
  shows "(''train'' \<notin> set (columns data) \<longrightarrow>
            train_test_split_cell data = Inl AttributeError) \<and>
         (''train'' \<in> set (columns data) \<longrightarrow> ''lpsa'' \<notin> set (columns data) \<longrightarrow>
            train_test_split_cell data = Inl KeyError) \<and>
         (''train'' \<in> set (columns data) \<longrightarrow> ''lpsa'' \<in> set (columns data) \<longrightarrow>
            (\<exists>sp ti li.
               train_test_split_cell data = Inr sp \<and>
               index_of ''train'' (columns data) = Some ti \<and>
               index_of ''lpsa'' (columns data) = Some li \<and>
               sp_y_train sp =
                 map (\<lambda>r. r ! li) (filter (\<lambda>r. r ! ti = Str ''T'') (rws data)) \<and>
               sp_y_test sp =
                 map (\<lambda>r. r ! li) (filter (\<lambda>r. r ! ti = Str ''F'') (rws data)) \<and>
               m_rows (sp_X_train sp) =
                 map (feature_cells (columns data))
                   (filter (\<lambda>r. r ! ti = Str ''T'') (rws data)) \<and>
               m_rows (sp_X_test sp) =
                 map (feature_cells (columns data))
                   (filter (\<lambda>r. r ! ti = Str ''F'') (rws data)) \<and>
               n_cols (sp_X_train sp) = length (feature_names (columns data)) \<and>
               n_cols (sp_X_test sp) = length (feature_names (columns data)) \<and>
               set (feature_names (columns data)) =
                 set (columns data) - {''lpsa'', ''train''}))"
proof (intro conjI impI)
  assume "''train'' \<notin> set (columns data)"
  then have "index_of ''train'' (columns data) = None"
    by (simp add: index_of_None)
  then show "train_test_split_cell data = Inl AttributeError"
    by (rule split_no_train_column)
next
  assume t: "''train'' \<in> set (columns data)" and l: "''lpsa'' \<notin> set (columns data)"
  from index_of_mem[OF t] obtain ti where ti: "index_of ''train'' (columns data) = Some ti" ..
  from l have "index_of ''lpsa'' (columns data) = None"
    by (simp add: index_of_None)
  with ti show "train_test_split_cell data = Inl KeyError"
    by (rule split_no_lpsa_column)
next
  assume t: "''train'' \<in> set (columns data)" and l: "''lpsa'' \<in> set (columns data)"
  from index_of_mem[OF t] obtain ti where ti: "index_of ''train'' (columns data) = Some ti" ..
  from index_of_mem[OF l] obtain li where li: "index_of ''lpsa'' (columns data) = Some li" ..
  let ?sp = "\<lparr>sp_y_train = map (\<lambda>r. r ! li) (filter (\<lambda>r. r ! ti = Str ''T'') (rws data)),
           sp_y_test = map (\<lambda>r. r ! li) (filter (\<lambda>r. r ! ti = Str ''F'') (rws data)),
           sp_X_train =
             \<lparr>n_cols = length (feature_names (columns data)),
              m_rows = map (feature_cells (columns data))
                         (filter (\<lambda>r. r ! ti = Str ''T'') (rws data))\<rparr>,
           sp_X_test =
             \<lparr>n_cols = length (feature_names (columns data)),
              m_rows = map (feature_cells (columns data))
                         (filter (\<lambda>r. r ! ti = Str ''F'') (rws data))\<rparr>\<rparr>"
  have v: "train_test_split_cell data = Inr ?sp"
    using assms ti li by (rule split_value)
  have names: "set (feature_names (columns data)) = set (columns data) - {''lpsa'', ''train''}"
    by (auto simp: feature_names_def)
  show "\<exists>sp ti li.
               train_test_split_cell data = Inr sp \<and>
               index_of ''train'' (columns data) = Some ti \<and>
               index_of ''lpsa'' (columns data) = Some li \<and>
               sp_y_train sp =
                 map (\<lambda>r. r ! li) (filter (\<lambda>r. r ! ti = Str ''T'') (rws data)) \<and>
               sp_y_test sp =
                 map (\<lambda>r. r ! li) (filter (\<lambda>r. r ! ti = Str ''F'') (rws data)) \<and>
               m_rows (sp_X_train sp) =
                 map (feature_cells (columns data))
                   (filter (\<lambda>r. r ! ti = Str ''T'') (rws data)) \<and>
               m_rows (sp_X_test sp) =
                 map (feature_cells (columns data))
                   (filter (\<lambda>r. r ! ti = Str ''F'') (rws data)) \<and>
               n_cols (sp_X_train sp) = length (feature_names (columns data)) \<and>
               n_cols (sp_X_test sp) = length (feature_names (columns data)) \<and>
               set (feature_names (columns data)) =
                 set (columns data) - {''lpsa'', ''train''}"
    by (rule exI[of _ ?sp], rule exI[of _ ti], rule exI[of _ li]) (simp add: v ti li names)
qed

text \<open>
  The theorem at the concrete frame: it has both columns, the split succeeds, rows one and
  two are training rows, row four is the test row, the columns \<open>a\<close> and \<open>b\<close> are the
  features.
\<close>

theorem split_by_train_column_witness:
  "well_formed demo_data \<and>
   ''train'' \<in> set (columns demo_data) \<and> ''lpsa'' \<in> set (columns demo_data) \<and>
   train_test_split_cell demo_data =
     Inr \<lparr>sp_y_train = [Num 0, Num 1], sp_y_test = [Num 3],
          sp_X_train = \<lparr>n_cols = 2, m_rows = [[Num 1, Num 0], [Num 1, Num 1]]\<rparr>,
          sp_X_test = \<lparr>n_cols = 2, m_rows = [[Num 5, Num 3]]\<rparr>\<rparr> \<and>
   feature_names (columns demo_data) = [''a'', ''b''] \<and>
   (\<exists>sp ti li.
      train_test_split_cell demo_data = Inr sp \<and>
      index_of ''train'' (columns demo_data) = Some ti \<and>
      index_of ''lpsa'' (columns demo_data) = Some li \<and>
      sp_y_train sp = map (\<lambda>r. r ! li) (filter (\<lambda>r. r ! ti = Str ''T'') (rws demo_data)) \<and>
      sp_y_test sp = map (\<lambda>r. r ! li) (filter (\<lambda>r. r ! ti = Str ''F'') (rws demo_data)) \<and>
      m_rows (sp_X_train sp) =
        map (feature_cells (columns demo_data))
          (filter (\<lambda>r. r ! ti = Str ''T'') (rws demo_data)) \<and>
      m_rows (sp_X_test sp) =
        map (feature_cells (columns demo_data))
          (filter (\<lambda>r. r ! ti = Str ''F'') (rws demo_data)) \<and>
      n_cols (sp_X_train sp) = length (feature_names (columns demo_data)) \<and>
      n_cols (sp_X_test sp) = length (feature_names (columns demo_data)) \<and>
      set (feature_names (columns demo_data)) = set (columns demo_data) - {''lpsa'', ''train''})"
proof -
  have wf: "well_formed demo_data"
    by code_simp
  have t: "''train'' \<in> set (columns demo_data)"
    by (simp add: demo_data_def demo_columns_def)
  have l: "''lpsa'' \<in> set (columns demo_data)"
    by (simp add: demo_data_def demo_columns_def)
  have sp: "train_test_split_cell demo_data =
     Inr \<lparr>sp_y_train = [Num 0, Num 1], sp_y_test = [Num 3],
          sp_X_train = \<lparr>n_cols = 2, m_rows = [[Num 1, Num 0], [Num 1, Num 1]]\<rparr>,
          sp_X_test = \<lparr>n_cols = 2, m_rows = [[Num 5, Num 3]]\<rparr>\<rparr>"
    by code_simp
  have fn: "feature_names (columns demo_data) = [''a'', ''b'']"
    by code_simp
  from split_by_train_column[OF wf] t l have ex: "\<exists>sp ti li.
      train_test_split_cell demo_data = Inr sp \<and>
      index_of ''train'' (columns demo_data) = Some ti \<and>
      index_of ''lpsa'' (columns demo_data) = Some li \<and>
      sp_y_train sp = map (\<lambda>r. r ! li) (filter (\<lambda>r. r ! ti = Str ''T'') (rws demo_data)) \<and>
      sp_y_test sp = map (\<lambda>r. r ! li) (filter (\<lambda>r. r ! ti = Str ''F'') (rws demo_data)) \<and>
      m_rows (sp_X_train sp) =
        map (feature_cells (columns demo_data))
          (filter (\<lambda>r. r ! ti = Str ''T'') (rws demo_data)) \<and>
      m_rows (sp_X_test sp) =
        map (feature_cells (columns demo_data))
          (filter (\<lambda>r. r ! ti = Str ''F'') (rws demo_data)) \<and>
      n_cols (sp_X_train sp) = length (feature_names (columns demo_data)) \<and>
      n_cols (sp_X_test sp) = length (feature_names (columns demo_data)) \<and>
      set (feature_names (columns demo_data)) = set (columns demo_data) - {''lpsa'', ''train''}"
    by blast
  from wf t l sp fn ex show ?thesis
    by (intro conjI)
qed

lemma filter_flag_of_flagged:
  "filter (\<lambda>r. r ! ti = Str ''T'')
     (filter (\<lambda>r. r ! ti = Str ''T'' \<or> r ! ti = Str ''F'') rows) =
   filter (\<lambda>r. r ! ti = Str ''T'') rows"
  "filter (\<lambda>r. r ! ti = Str ''F'')
     (filter (\<lambda>r. r ! ti = Str ''T'' \<or> r ! ti = Str ''F'') rows) =
   filter (\<lambda>r. r ! ti = Str ''F'') rows"
  by (induction rows) simp_all

lemma length_flagged:
  "length (filter (\<lambda>r. r ! ti = Str ''T'') rows) + length (filter (\<lambda>r. r ! ti = Str ''F'') rows) =
   length (filter (\<lambda>r. r ! ti = Str ''T'' \<or> r ! ti = Str ''F'') rows)"
  by (induction rows) auto

text \<open>
  Claim C9. Removing from the frame every row whose \<open>train\<close> cell is neither \<open>T\<close> nor
  \<open>F\<close> changes nothing: the split gives the same arrays, or raises the same exception, as
  on the whole frame; so such a row reaches no later cell, all of which read only the four
  arrays and the column labels. On a well-formed frame the training and test rows together
  are as many as the flagged rows.
\<close>

theorem unflagged_rows_dropped:
  "train_test_split_cell (data\<lparr>rws := flagged_rows data\<rparr>) = train_test_split_cell data \<and>
   (well_formed data \<longrightarrow> train_test_split_cell data = Inr sp \<longrightarrow>
      length (sp_y_train sp) + length (sp_y_test sp) = length (flagged_rows data) \<and>
      length (m_rows (sp_X_train sp)) = length (sp_y_train sp) \<and>
      length (m_rows (sp_X_test sp)) = length (sp_y_test sp))"
proof -
  have same: "train_test_split_cell (data\<lparr>rws := flagged_rows data\<rparr>) = train_test_split_cell data"
  proof (cases "index_of ''train'' (columns data)")
    case None
    then show ?thesis by (simp add: split_no_train_column)
  next
    case (Some ti)
    then have ti': "index_of ''train'' (columns (data\<lparr>rws := flagged_rows data\<rparr>)) = Some ti"
      by simp
    have fl: "flagged_rows data = filter (\<lambda>r. r ! ti = Str ''T'' \<or> r ! ti = Str ''F'') (rws data)"
      by (simp add: flagged_rows_def Some)
    have T: "(data\<lparr>rws := flagged_rows data\<rparr>)
               \<lparr>rws := filter (\<lambda>r. r ! ti = Str ''T'') (rws (data\<lparr>rws := flagged_rows data\<rparr>))\<rparr> =
             data\<lparr>rws := filter (\<lambda>r. r ! ti = Str ''T'') (rws data)\<rparr>"
      by (simp add: fl filter_flag_of_flagged del: filter_filter)
    have F: "(data\<lparr>rws := flagged_rows data\<rparr>)
               \<lparr>rws := filter (\<lambda>r. r ! ti = Str ''F'') (rws (data\<lparr>rws := flagged_rows data\<rparr>))\<rparr> =
             data\<lparr>rws := filter (\<lambda>r. r ! ti = Str ''F'') (rws data)\<rparr>"
      by (simp add: fl filter_flag_of_flagged del: filter_filter)
    show ?thesis
      unfolding split_normal_form[OF Some] split_normal_form[OF ti'] T F
      by (rule refl)
  qed
  have count: "length (sp_y_train sp) + length (sp_y_test sp) = length (flagged_rows data) \<and>
      length (m_rows (sp_X_train sp)) = length (sp_y_train sp) \<and>
      length (m_rows (sp_X_test sp)) = length (sp_y_test sp)"
    if "well_formed data" "train_test_split_cell data = Inr sp"
  proof -
    from that obtain ti li where ti: "index_of ''train'' (columns data) = Some ti"
      and sp: "sp = \<lparr>sp_y_train = map (\<lambda>r. r ! li) (filter (\<lambda>r. r ! ti = Str ''T'') (rws data)),
           sp_y_test = map (\<lambda>r. r ! li) (filter (\<lambda>r. r ! ti = Str ''F'') (rws data)),
           sp_X_train =
             \<lparr>n_cols = length (feature_names (columns data)),
              m_rows = map (feature_cells (columns data))
                         (filter (\<lambda>r. r ! ti = Str ''T'') (rws data))\<rparr>,
           sp_X_test =
             \<lparr>n_cols = length (feature_names (columns data)),
              m_rows = map (feature_cells (columns data))
                         (filter (\<lambda>r. r ! ti = Str ''F'') (rws data))\<rparr>\<rparr>"
      by (rule split_success_form)
    have "flagged_rows data = filter (\<lambda>r. r ! ti = Str ''T'' \<or> r ! ti = Str ''F'') (rws data)"
      by (simp add: flagged_rows_def ti)
    then show ?thesis
      using length_flagged[of ti "rws data"] by (simp add: sp)
  qed
  from same count show ?thesis by blast
qed

text \<open>
  The theorem at the concrete frame, whose third row is flagged \<open>X\<close>: three rows are
  flagged, two go to training and one to testing, and the split of the three flagged rows
  alone is the split of the frame.
\<close>

theorem unflagged_rows_dropped_witness:
  "well_formed demo_data \<and>
   flagged_rows demo_data =
     [[Num 1, Num 0, Num 0, Str ''T''], [Num 1, Num 1, Num 1, Str ''T''],
      [Num 5, Num 3, Num 3, Str ''F'']] \<and>
   train_test_split_cell demo_data = Inr (projr (train_test_split_cell demo_data)) \<and>
   train_test_split_cell (demo_data\<lparr>rws := flagged_rows demo_data\<rparr>) =
     train_test_split_cell demo_data \<and>
   length (sp_y_train (projr (train_test_split_cell demo_data))) +
     length (sp_y_test (projr (train_test_split_cell demo_data))) = 3"
proof -
  have wf: "well_formed demo_data"
    by code_simp
  have fl: "flagged_rows demo_data =
     [[Num 1, Num 0, Num 0, Str ''T''], [Num 1, Num 1, Num 1, Str ''T''],
      [Num 5, Num 3, Num 3, Str ''F'']]"
    by code_simp
  have "\<not> isl (train_test_split_cell demo_data)"
    by code_simp
  then have ok: "train_test_split_cell demo_data = Inr (projr (train_test_split_cell demo_data))"
    by simp
  from unflagged_rows_dropped[of demo_data "projr (train_test_split_cell demo_data)"] wf ok
  show ?thesis by (simp add: fl)
qed

section \<open>Properties of the coefficient labels\<close>

lemma dom_dict_zip: "dom (dict_zip ks vs) = set (take (length vs) ks)"
proof -
  have "dom (dict_zip ks vs) = set (map fst (zip ks vs))"
    by (simp add: dict_zip_def dom_map_of_conv_image_fst)
  also have "\<dots> = set (take (min (length ks) (length vs)) ks)"
    by (simp only: map_fst_zip_take)
  also have "\<dots> = set (take (length vs) ks)"
    by (simp add: min_def)
  finally show ?thesis .
qed

lemma dict_zip_nth:
  assumes "distinct ks" and "i < length ks" and "i < length vs"
  shows "dict_zip ks vs (ks ! i) = Some (vs ! i)"
proof -
  have "map fst (rev (zip ks vs)) = rev (take (min (length ks) (length vs)) ks)"
    by (simp only: rev_map[symmetric] map_fst_zip_take)
  then have d: "distinct (map fst (rev (zip ks vs)))"
    using assms(1) by simp
  have "(ks ! i, vs ! i) \<in> set (zip ks vs)"
    using assms(2,3) by (auto simp: set_zip)
  then have "(ks ! i, vs ! i) \<in> set (rev (zip ks vs))"
    by simp
  with d show ?thesis
    unfolding dict_zip_def by (simp only: map_of_eq_Some_iff)
qed

lemma prefix_of_filter:
  assumes "\<forall>x\<in>set (take k xs). P x"
  shows "take k (filter P xs) = take k xs"
proof -
  have "filter P (take k xs) = take k xs"
    using assms by (rule filter_True)
  then have "filter P (take k xs @ drop k xs) = take k xs @ filter P (drop k xs)"
    by (simp only: filter_append)
  then have "filter P xs = take k xs @ filter P (drop k xs)"
    by (simp only: append_take_drop_id)
  then have "take k (filter P xs) = take k (take k xs @ filter P (drop k xs))"
    by (rule arg_cong)
  also have "\<dots> = take k xs"
    by (cases "k \<le> length xs") simp_all
  finally show ?thesis .
qed

lemma labels_all_fitted_imp_prefix:
  assumes dist: "distinct cols"
    and s: "sorted_wrt (<) s" "set s \<subseteq> {0..<length (filter P cols)}"
    and k: "length s < length cols"
    and sub: "set (take (length s) (butlast cols)) \<subseteq> set (map ((!) (filter P cols)) s)"
  shows "s = [0..<length s]"
proof -
  let ?F = "filter P cols"
  let ?k = "length s"
  let ?L = "take ?k cols"
  let ?N = "set (map ((!) ?F) s)"
  have L: "take ?k (butlast cols) = ?L"
    using k by (rule take_butlast)
  have "distinct ?L" "length ?L = ?k"
    using dist k by simp_all
  then have cardL: "card (set ?L) = ?k"
    using distinct_card by fastforce
  have "card ?N \<le> card (set s)"
    by (simp add: card_image_le)
  also have "\<dots> \<le> ?k"
    by (rule card_length)
  finally have cardN: "card ?N \<le> ?k" .
  have subL: "set ?L \<subseteq> ?N"
    using sub by (simp only: L)
  then have "card (set ?L) \<le> card ?N"
    by (intro card_mono) simp_all
  with cardL cardN have "card (set ?L) = card ?N"
    by simp
  with subL have eq: "set ?L = ?N"
    by (intro card_subset_eq) simp_all
  have "P x" if "x \<in> ?N" for x
  proof -
    from that obtain i where i: "i \<in> set s" "x = ?F ! i" by auto
    then have "i < length ?F" using s(2) by auto
    then have "?F ! i \<in> set ?F" by (rule nth_mem)
    then show ?thesis using i(2) by simp
  qed
  then have "\<forall>x\<in>set ?L. P x"
    using eq by blast
  then have tk: "take ?k ?F = ?L"
    by (rule prefix_of_filter)
  have kF: "?k \<le> length ?F"
  proof -
    have "length (take ?k ?F) = ?k" using tk k by simp
    then show ?thesis by simp
  qed
  have "(!) ?F ` {0..<?k} = set (take ?k ?F)"
    using kF by (rule nth_image)
  also have "\<dots> = ?N"
    using tk eq by simp
  also have "\<dots> = (!) ?F ` set s"
    by simp
  finally have img: "(!) ?F ` {0..<?k} = (!) ?F ` set s" .
  have inj: "inj_on ((!) ?F) {0..<length ?F}"
    using dist by (intro inj_on_nth) simp_all
  have "{0..<?k} = set s"
    using inj_on_image_eq_iff[OF inj _ s(2), of "{0..<?k}"] kF img by auto
  then have sets: "set s = set [0..<?k]"
    by simp
  have "sorted s" "distinct s"
    using s(1) by (simp_all add: strict_sorted_iff)
  then show ?thesis
    using sets by (intro sorted_distinct_set_unique) simp_all
qed

section \<open>Claims about the coefficient labels\<close>

lemma best_row_enumerated:
  assumes contract: "\<And>tbl. sorts_by_MAE srt tbl"
    and run: "outcome (best_subset_cell est srt cols X_train y_train X_test y_test) = Inr vars"
  shows "features (hd (results vars)) \<in> set (enumerated_subsets (n_cols X_train))"
proof -
  let ?T = "subset_test_mae est X_train y_train X_test y_test"
  let ?ss = "enumerated_subsets (n_cols X_train)"
  let ?row = "\<lambda>s. \<lparr>num_features = length s, features = s, MAE = projr (?T s)\<rparr>"
  from run obtain best rest Xs where
    srt: "srt (map ?row ?ss) = best # rest" and res: "results vars = best # rest"
    by (rule best_subset_cell_success)
  from contract[of "map ?row ?ss"] have "mset (best # rest) = mset (map ?row ?ss)"
    by (simp add: sorts_by_MAE_def srt)
  then have "set (best # rest) = set (map ?row ?ss)"
    by (rule mset_eq_setD)
  then have "best \<in> ?row ` set ?ss"
    by auto
  then obtain s0 where "s0 \<in> set ?ss" "best = ?row s0"
    by auto
  then show ?thesis
    by (simp add: res)
qed

text \<open>
  Claim C5. The layout is the prostate file's: the feature columns, then \<open>lpsa\<close>, then
  \<open>train\<close>, with distinct labels, none of them \<open>Intercept\<close>. When the cell runs to its
  end and the fit returns one coefficient for each fitted column: the dictionary is built
  from the labels \<open>Intercept\<close>, the feature names and \<open>lpsa\<close> (the slice drops \<open>train\<close>
  only) against the rounded intercept and coefficients; its keys are \<open>Intercept\<close> and the
  first \<open>k\<close> feature names, \<open>k\<close> the size of the winning subset; the key at position
  \<open>i\<close> holds the rounded \<open>i\<close>-th entry of intercept followed by coefficients, whatever
  columns were fitted; and when the winning subset is not the first \<open>k\<close> feature columns,
  some key is a feature name that is not the name of any fitted column.
\<close>

theorem coefficient_labels_positional:
  assumes contract: "\<And>tbl. sorts_by_MAE srt tbl"
    and run: "outcome (best_subset_cell est srt cols X_train y_train X_test y_test) = Inr vars"
    and layout: "cols = feats @ [''lpsa'', ''train'']"
    and labels: "distinct (''Intercept'' # cols)"
    and p: "n_cols X_train = length feats"
    and fitted: "length (coef est (best_subset_model vars)) = length (features (hd (results vars)))"
  shows "feature_names cols = feats \<and>
         coef_labels cols = ''Intercept'' # feats @ [''lpsa''] \<and>
         best_subset_coefs vars =
           dict_zip (''Intercept'' # feats @ [''lpsa''])
             (map (\<lambda>v. np_round v 3)
                (intercept est (best_subset_model vars) # coef est (best_subset_model vars))) \<and>
         dom (best_subset_coefs vars) =
           set (''Intercept'' # take (length (features (hd (results vars)))) feats) \<and>
         (\<forall>i\<le>length (features (hd (results vars))).
            best_subset_coefs vars ((''Intercept'' # feats) ! i) =
              Some (np_round ((intercept est (best_subset_model vars) #
                               coef est (best_subset_model vars)) ! i) 3)) \<and>
         (features (hd (results vars)) \<noteq> [0..<length (features (hd (results vars)))] \<longrightarrow>
            (\<exists>name\<in>dom (best_subset_coefs vars).
               name \<in> set (feature_names cols) \<and>
               name \<notin> set (map ((!) (feature_names cols)) (features (hd (results vars))))))"
proof -
  let ?s = "features (hd (results vars))"
  let ?k = "length ?s"
  let ?m = "best_subset_model vars"
  let ?labels = "''Intercept'' # feats @ [''lpsa'']"
  let ?vals = "map (\<lambda>v. np_round v 3) (intercept est ?m # coef est ?m)"
  let ?P = "\<lambda>c. c \<noteq> ''lpsa'' \<and> c \<noteq> ''train''"
  have feats: "''lpsa'' \<notin> set feats" "''train'' \<notin> set feats" "distinct feats"
    "''Intercept'' \<notin> set feats"
    using labels by (auto simp: layout)
  have "filter ?P feats = feats"
    using feats(1,2) by (intro filter_True) auto
  then have c0: "feature_names cols = feats"
    by (simp add: feature_names_def layout)
  have bl: "butlast cols = feats @ [''lpsa'']"
    by (simp add: layout butlast_append)
  then have c1: "coef_labels cols = ?labels"
    by (simp add: coef_labels_def)
  from run obtain best rest Xs where
    "best_subset_coefs vars = dict_zip (coef_labels cols) ?vals"
    by (rule best_subset_cell_success)
  then have c2: "best_subset_coefs vars = dict_zip ?labels ?vals"
    by (simp only: c1)
  have len_vals: "length ?vals = ?k + 1"
    using fitted by simp
  have "?s \<in> set (enumerated_subsets (n_cols X_train))"
    using contract run by (rule best_row_enumerated)
  then have sub: "subseq ?s [0..<length feats]"
    by (simp add: set_enumerated_subsets p)
  then have sorted: "sorted_wrt (<) ?s"
    using subseq_sorted_wrt[of ?s "[0..<length feats]" "(<)"] by simp
  have range: "set ?s \<subseteq> {0..<length feats}"
    using subseq_set_mono[OF sub] by simp
  have k: "?k \<le> length feats"
    using list_emb_length[OF sub] by simp
  have dist: "distinct ?labels"
    using labels by (simp add: layout)
  have "dom (best_subset_coefs vars) = set (take (?k + 1) ?labels)"
    by (simp only: c2 dom_dict_zip len_vals)
  also have "\<dots> = set (''Intercept'' # take ?k feats)"
    using k by simp
  finally have c3: "dom (best_subset_coefs vars) = set (''Intercept'' # take ?k feats)" .
  have c4: "\<forall>i\<le>?k. best_subset_coefs vars ((''Intercept'' # feats) ! i) =
              Some (np_round ((intercept est ?m # coef est ?m) ! i) 3)"
  proof (intro allI impI)
    fix i assume i: "i \<le> ?k"
    then have "i < length ?labels" "i < length ?vals"
      using k len_vals by simp_all
    with dist have "dict_zip ?labels ?vals (?labels ! i) = Some (?vals ! i)"
      by (rule dict_zip_nth)
    moreover have "?vals ! i = np_round ((intercept est ?m # coef est ?m) ! i) 3"
      using i fitted by (intro nth_map) simp
    moreover have "?labels ! i = (''Intercept'' # feats) ! i"
      using i k by (cases i) (simp_all add: nth_append)
    ultimately show "best_subset_coefs vars ((''Intercept'' # feats) ! i) =
              Some (np_round ((intercept est ?m # coef est ?m) ! i) 3)"
      by (simp only: c2)
  qed
  have c5: "\<exists>name\<in>dom (best_subset_coefs vars).
               name \<in> set (feature_names cols) \<and>
               name \<notin> set (map ((!) (feature_names cols)) ?s)"
    if neq: "?s \<noteq> [0..<?k]"
  proof -
    have F: "filter ?P cols = feats"
      using c0 by (simp only: feature_names_def)
    have tk: "take ?k (butlast cols) = take ?k feats"
      using k by (simp add: bl)
    have "\<not> set (take ?k feats) \<subseteq> set (map ((!) feats) ?s)"
    proof
      assume "set (take ?k feats) \<subseteq> set (map ((!) feats) ?s)"
      then have "set (take ?k (butlast cols)) \<subseteq> set (map ((!) (filter ?P cols)) ?s)"
        by (simp only: tk F)
      moreover have "distinct cols" using labels by simp
      moreover have "set ?s \<subseteq> {0..<length (filter ?P cols)}" using range by (simp only: F)
      moreover have "?k < length cols" using k by (simp add: layout)
      ultimately have "?s = [0..<?k]"
        using sorted by (intro labels_all_fitted_imp_prefix[of cols ?s ?P])
      with neq show False by simp
    qed
    then obtain name where name: "name \<in> set (take ?k feats)"
      "name \<notin> set (map ((!) feats) ?s)"
      by blast
    from name(1) have "name \<in> set feats"
      by (rule in_set_takeD)
    moreover have "name \<in> dom (best_subset_coefs vars)"
      using name(1) by (simp add: c3)
    ultimately show ?thesis
      using name(2) by (auto simp only: c0)
  qed
  from c0 c1 c2 c3 c4 c5 show ?thesis by blast
qed

text \<open>
  The theorem at the concrete data, where column \<open>b\<close> alone wins under ordinary least
  squares: the fit on \<open>b\<close> has intercept \<open>5/2\<close> and coefficient \<open>1/2\<close>; the dictionary
  has the keys \<open>Intercept\<close> and \<open>a\<close>, and the coefficient fitted for \<open>b\<close> is printed
  under \<open>a\<close>.
\<close>

theorem coefficient_labels_positional_witness:
  "(\<forall>tbl. sorts_by_MAE sort_values_MAE tbl) \<and>
   outcome demo_run = Inr (projr (outcome demo_run)) \<and>
   demo_columns = [''a'', ''b''] @ [''lpsa'', ''train''] \<and>
   distinct (''Intercept'' # demo_columns) \<and>
   n_cols demo_X_train = length [''a'', ''b''] \<and>
   features (hd (results (projr (outcome demo_run)))) = [1] \<and>
   intercept least_squares (best_subset_model (projr (outcome demo_run))) = 5 / 2 \<and>
   coef least_squares (best_subset_model (projr (outcome demo_run))) = [1 / 2] \<and>
   dom (best_subset_coefs (projr (outcome demo_run))) = {''Intercept'', ''a''} \<and>
   best_subset_coefs (projr (outcome demo_run)) ''Intercept'' = Some (5 / 2) \<and>
   best_subset_coefs (projr (outcome demo_run)) ''a'' = Some (1 / 2) \<and>
   map ((!) (feature_names demo_columns)) [1] = [''b''] \<and>
   (\<exists>name\<in>dom (best_subset_coefs (projr (outcome demo_run))).
      name \<in> set (feature_names demo_columns) \<and>
      name \<notin> set (map ((!) (feature_names demo_columns)) [1]))"
proof -
  have h1: "sorts_by_MAE sort_values_MAE tbl" for tbl
    by (rule sort_values_MAE_contract)
  have "\<not> isl (outcome demo_run)"
    by code_simp
  then have h2: "outcome demo_run = Inr (projr (outcome demo_run))"
    by simp
  have h3: "demo_columns = [''a'', ''b''] @ [''lpsa'', ''train'']"
    by (simp add: demo_columns_def)
  have h4: "distinct (''Intercept'' # demo_columns)"
    by code_simp
  have h5: "n_cols demo_X_train = length [''a'', ''b'']"
    by (simp add: demo_X_train_def)
  have f: "features (hd (results (projr (outcome demo_run)))) = [1]"
    by code_simp
  have i: "intercept least_squares (best_subset_model (projr (outcome demo_run))) = 5 / 2"
    by code_simp
  have c: "coef least_squares (best_subset_model (projr (outcome demo_run))) = [1 / 2]"
    by code_simp
  have h6: "length (coef least_squares (best_subset_model (projr (outcome demo_run)))) =
            length (features (hd (results (projr (outcome demo_run)))))"
    by (simp add: f c)
  have a0: "best_subset_coefs (projr (outcome demo_run)) ''Intercept'' = Some (5 / 2)"
    by code_simp
  have a: "best_subset_coefs (projr (outcome demo_run)) ''a'' = Some (1 / 2)"
    by code_simp
  have b: "map ((!) (feature_names demo_columns)) [1] = [''b'']"
    by code_simp
  note inst = coefficient_labels_positional[OF h1 h2[unfolded demo_run_def] h3 h4 h5
      h6[unfolded demo_run_def], folded demo_run_def]
  from inst have d0: "dom (best_subset_coefs (projr (outcome demo_run))) =
      set (''Intercept'' # take (length (features (hd (results (projr (outcome demo_run))))))
                            [''a'', ''b''])"
    by blast
  from inst have e0:
    "features (hd (results (projr (outcome demo_run)))) \<noteq>
       [0..<length (features (hd (results (projr (outcome demo_run)))))] \<longrightarrow>
     (\<exists>name\<in>dom (best_subset_coefs (projr (outcome demo_run))).
        name \<in> set (feature_names demo_columns) \<and>
        name \<notin> set (map ((!) (feature_names demo_columns))
                        (features (hd (results (projr (outcome demo_run)))))))"
    by blast
  have d: "dom (best_subset_coefs (projr (outcome demo_run))) = {''Intercept'', ''a''}"
    unfolding d0 by (simp add: f)
  have "[1] \<noteq> [0..<length [1::nat]]"
    by simp
  with e0 have e: "\<exists>name\<in>dom (best_subset_coefs (projr (outcome demo_run))).
      name \<in> set (feature_names demo_columns) \<and>
      name \<notin> set (map ((!) (feature_names demo_columns)) [1])"
    unfolding f by (rule mp)
  from h1 h2 h3 h4 h5 f i c d a0 a b e show ?thesis
    by (intro conjI allI)
qed

end
